theory Spec2Isabelle
  imports Complex_Main "HOL-Library.Word" "HOL-Library.Char_ord" "HOL-Library.List_Lexorder"
begin

unbundle bit_operations_syntax

section \<open>Errors raised by the memory layer\<close>

text \<open>
  Every \<^verbatim>\<open>throw\<close> of the TypeScript sources, and every exception of the runtime that
  the modelled code can reach, is a value of this type; a function that can throw returns
  \<open>error + 'a\<close> with \<open>Inl\<close> for the exception.
\<close>

datatype error =
    VectorLengthMismatch nat nat
  | BufferOutOfRange nat
  | ErrorNotFound nat
  | SolutionNotFound nat
  | UniqueViolation string
  | ProviderFailure

section \<open>Similarity utilities (\<^verbatim>\<open>utils/similarity.ts\<close>)\<close>

text \<open>
  JavaScript numbers are modelled as real numbers: rounding, overflow to infinity and NaN
  are outside the model.
\<close>

subsection \<open>Cosine similarity\<close>

text \<open>
  The body of the \<^verbatim>\<open>for\<close> loop of \<^verbatim>\<open>cosineSimilarity\<close>, on the accumulators
  \<^verbatim>\<open>(dotProduct, normA, normB)\<close>.
\<close>

definition cosine_step :: "real list \<Rightarrow> real list \<Rightarrow> nat \<Rightarrow> real \<times> real \<times> real \<Rightarrow> real \<times> real \<times> real" where
  "cosine_step a b i acc =
     (case acc of (dotProduct, normA, normB) \<Rightarrow>
        (dotProduct + a ! i * b ! i, normA + a ! i * a ! i, normB + b ! i * b ! i))"

definition cosineSimilarity :: "real list \<Rightarrow> real list \<Rightarrow> error + real" where
  "cosineSimilarity a b =
     (if length a \<noteq> length b then Inl (VectorLengthMismatch (length a) (length b))
      else if length a = 0 then Inr 0
      else
        (case fold (cosine_step a b) [0..<length a] (0, 0, 0) of
           (dotProduct, normA, normB) \<Rightarrow>
             (let magnitude = sqrt normA * sqrt normB
              in if magnitude = 0 then Inr 0 else Inr (dotProduct / magnitude))))"

text \<open>The Euclidean magnitude of a vector, the notion the specification speaks of.\<close>

definition magnitude_of :: "real list \<Rightarrow> real" where
  "magnitude_of v = sqrt (\<Sum>x\<leftarrow>v. x * x)"

subsection \<open>Edit distance\<close>

text \<open>
  \<^verbatim>\<open>levenshteinDistance\<close> fills a matrix with one row per character of \<^verbatim>\<open>b\<close> and one
  column per character of \<^verbatim>\<open>a\<close>. A JavaScript string is a sequence of UTF-16 code
  units; the model is polymorphic in the type of code units.

  \<open>lev_cell\<close> is the body of the inner loop: \<open>diag\<close>, \<open>left\<close> and \<open>up\<close> are
  \<^verbatim>\<open>matrix[i-1][j-1]\<close>, \<^verbatim>\<open>matrix[i][j-1]\<close> and \<^verbatim>\<open>matrix[i-1][j]\<close>.
\<close>

definition lev_cell :: "'a \<Rightarrow> 'a \<Rightarrow> nat \<Rightarrow> nat \<Rightarrow> nat \<Rightarrow> nat" where
  "lev_cell bc ac diag left up =
     (if bc = ac then diag else min (diag + 1) (min (left + 1) (up + 1)))"

text \<open>
  The inner loop over \<^verbatim>\<open>j\<close>: the cells \<^verbatim>\<open>matrix[i][j..]\<close> of the current row, from the
  remaining characters of \<^verbatim>\<open>a\<close>, the cells \<^verbatim>\<open>matrix[i-1][j..]\<close> of the row above, and the
  two cells to the left.
\<close>

fun lev_row :: "'a \<Rightarrow> 'a list \<Rightarrow> nat list \<Rightarrow> nat \<Rightarrow> nat \<Rightarrow> nat list" where
  "lev_row bc (ac # as) (up # prev) diag left =
     (let v = lev_cell bc ac diag left up in v # lev_row bc as prev up v)"
| "lev_row bc _ _ diag left = []"

text \<open>
  The outer loop over \<^verbatim>\<open>i\<close>: row \<^verbatim>\<open>i\<close> starts with \<^verbatim>\<open>matrix[i] = [i]\<close>; the result is
  the last row of the matrix.
\<close>

fun lev_rows :: "'a list \<Rightarrow> 'a list \<Rightarrow> nat \<Rightarrow> nat list \<Rightarrow> nat list" where
  "lev_rows a [] i prev = prev"
| "lev_rows a (bc # bs) i prev =
     lev_rows a bs (Suc i) (i # lev_row bc a (tl prev) (hd prev) i)"

definition levenshteinDistance :: "'a list \<Rightarrow> 'a list \<Rightarrow> nat" where
  "levenshteinDistance a b =
     (if length a = 0 then length b
      else if length b = 0 then length a
      else last (lev_rows a b 1 [0..<Suc (length a)]))"

definition levenshteinSimilarity :: "'a list \<Rightarrow> 'a list \<Rightarrow> real" where
  "levenshteinSimilarity a b =
     (let maxLength = max (length a) (length b)
      in if maxLength = 0 then 1
         else 1 - real (levenshteinDistance a b) / real maxLength)"

subsection \<open>Packing embeddings into buffers\<close>

text \<open>
  A Node.js \<^verbatim>\<open>Buffer\<close> is a sequence of bytes. \<^verbatim>\<open>writeFloatLE\<close> and \<^verbatim>\<open>readFloatLE\<close> belong
  to the runtime: the conversion between a number and its 32 bits in IEEE-754 binary32
  format is a parameter of the model (\<open>enc\<close> rounds a number to single precision and
  gives its bit pattern, \<open>dec\<close> reads a bit pattern back), the little-endian byte layout
  and the range check on the offset are modelled.
\<close>

type_synonym byte = "8 word"
type_synonym buffer = "byte list"

definition float_bytes_le :: "32 word \<Rightarrow> byte list" where
  "float_bytes_le w = [ucast w, ucast (drop_bit 8 w), ucast (drop_bit 16 w), ucast (drop_bit 24 w)]"

definition word_of_bytes_le :: "byte \<Rightarrow> byte \<Rightarrow> byte \<Rightarrow> byte \<Rightarrow> 32 word" where
  "word_of_bytes_le b0 b1 b2 b3 =
     ucast b0 OR push_bit 8 (ucast b1) OR push_bit 16 (ucast b2) OR push_bit 24 (ucast b3)"

definition writeFloatLE :: "('f \<Rightarrow> 32 word) \<Rightarrow> buffer \<Rightarrow> 'f \<Rightarrow> nat \<Rightarrow> error + buffer" where
  "writeFloatLE enc buf v off =
     (if off + 4 \<le> length buf
      then Inr (take off buf @ float_bytes_le (enc v) @ drop (off + 4) buf)
      else Inl (BufferOutOfRange off))"

definition readFloatLE :: "(32 word \<Rightarrow> 'f) \<Rightarrow> buffer \<Rightarrow> nat \<Rightarrow> error + 'f" where
  "readFloatLE dec buf off =
     (if off + 4 \<le> length buf
      then Inr (dec (word_of_bytes_le (buf ! off) (buf ! (off + 1)) (buf ! (off + 2)) (buf ! (off + 3))))
      else Inl (BufferOutOfRange off))"

text \<open>The loop of \<^verbatim>\<open>bufferToFloatArray\<close>: \<^verbatim>\<open>for (let i = 0; i < buffer.length; i += 4)\<close>.\<close>

function bufferToFloatArray_loop :: "(32 word \<Rightarrow> 'f) \<Rightarrow> buffer \<Rightarrow> nat \<Rightarrow> 'f list \<Rightarrow> error + 'f list" where
  "bufferToFloatArray_loop dec buf i floats =
     (if i < length buf
      then (case readFloatLE dec buf i of
              Inl e \<Rightarrow> Inl e
            | Inr x \<Rightarrow> bufferToFloatArray_loop dec buf (i + 4) (floats @ [x]))
      else Inr floats)"
  by pat_completeness auto
termination
  by (relation "measure (\<lambda>(dec, buf, i, floats). length buf - i)") auto

definition bufferToFloatArray :: "(32 word \<Rightarrow> 'f) \<Rightarrow> buffer \<Rightarrow> error + 'f list" where
  "bufferToFloatArray dec buf = bufferToFloatArray_loop dec buf 0 []"

text \<open>
  \<^verbatim>\<open>Buffer.allocUnsafe(n)\<close> returns \<open>n\<close> bytes of uninitialised memory: their content
  \<open>mem\<close> is arbitrary.
\<close>

definition allocUnsafe :: "(nat \<Rightarrow> byte) \<Rightarrow> nat \<Rightarrow> buffer" where
  "allocUnsafe mem n = map mem [0..<n]"

text \<open>The loop of \<^verbatim>\<open>floatArrayToBuffer\<close>: \<^verbatim>\<open>for (let i = 0; i < arr.length; i++)\<close>.\<close>

function floatArrayToBuffer_loop :: "('f \<Rightarrow> 32 word) \<Rightarrow> 'f list \<Rightarrow> nat \<Rightarrow> buffer \<Rightarrow> error + buffer" where
  "floatArrayToBuffer_loop enc arr i buf =
     (if i < length arr
      then (case writeFloatLE enc buf (arr ! i) (i * 4) of
              Inl e \<Rightarrow> Inl e
            | Inr buf' \<Rightarrow> floatArrayToBuffer_loop enc arr (i + 1) buf')
      else Inr buf)"
  by pat_completeness auto
termination
  by (relation "measure (\<lambda>(enc, arr, i, buf). length arr - i)") auto

definition floatArrayToBuffer :: "('f \<Rightarrow> 32 word) \<Rightarrow> (nat \<Rightarrow> byte) \<Rightarrow> 'f list \<Rightarrow> error + buffer" where
  "floatArrayToBuffer enc mem arr =
     floatArrayToBuffer_loop enc arr 0 (allocUnsafe mem (length arr * 4))"

text \<open>
  The value a number has after it was written as a binary32 and read back, that is the
  number rounded to single precision.
\<close>

definition fround :: "('f \<Rightarrow> 32 word) \<Rightarrow> (32 word \<Rightarrow> 'f) \<Rightarrow> 'f \<Rightarrow> 'f" where
  "fround enc dec x = dec (enc x)"

section \<open>Strings and regular expressions of the JavaScript runtime\<close>

text \<open>
  Messages are strings of characters; the character classes, \<^verbatim>\<open>toLowerCase\<close> and
  \<^verbatim>\<open>trim\<close> are those of JavaScript on ASCII text (a character outside ASCII is
  treated as a caseless character that is neither a word character nor white space).
\<close>

definition is_upper :: "char \<Rightarrow> bool" where
  "is_upper c = (65 \<le> (of_char c :: nat) \<and> (of_char c :: nat) \<le> 90)"

definition is_lower :: "char \<Rightarrow> bool" where
  "is_lower c = (97 \<le> (of_char c :: nat) \<and> (of_char c :: nat) \<le> 122)"

definition is_digit :: "char \<Rightarrow> bool" where
  "is_digit c = (48 \<le> (of_char c :: nat) \<and> (of_char c :: nat) \<le> 57)"

definition is_word :: "char \<Rightarrow> bool" where
  "is_word c = (is_upper c \<or> is_lower c \<or> is_digit c \<or> c = CHR ''_'')"

definition is_space :: "char \<Rightarrow> bool" where
  "is_space c = ((9 \<le> (of_char c :: nat) \<and> (of_char c :: nat) \<le> 13) \<or> c = CHR '' '')"

definition to_lower :: "char \<Rightarrow> char" where
  "to_lower c = (if is_upper c then char_of (of_char c + (32 :: nat)) else c)"

definition to_upper :: "char \<Rightarrow> char" where
  "to_upper c = (if is_lower c then char_of (of_char c - (32 :: nat)) else c)"

definition toLowerCase :: "string \<Rightarrow> string" where
  "toLowerCase s = map to_lower s"

definition trim :: "string \<Rightarrow> string" where
  "trim s = rev (dropWhile is_space (rev (dropWhile is_space s)))"

text \<open>
  The regular expressions the sources use, and the backtracking matcher of the runtime.
  \<open>rmatch r (pc, s)\<close> lists the ways \<open>r\<close> matches a prefix of \<open>s\<close>, in the order in
  which a backtracking matcher tries them (greedy repetition first, alternatives from left
  to right); each way is the state after the match: the last character consumed (for
  \<^verbatim>\<open>\b\<close>; \<open>pc\<close> is the character before \<open>s\<close>) and the rest of the input. The match a
  JavaScript regular expression finds at a position is the head of this list. A repetition
  does not iterate on an empty match, as in ECMAScript.
\<close>

datatype regex =
    Eps
  | Atom "char \<Rightarrow> bool"
  | Seq regex regex
  | Alt regex regex
  | Star regex
  | WordBoundary
  | EndOfInput
  | Lookahead regex

type_synonym rstate = "char option \<times> string"

fun at_word_boundary :: "rstate \<Rightarrow> bool" where
  "at_word_boundary (pc, s) =
     ((case pc of None \<Rightarrow> False | Some c \<Rightarrow> is_word c) \<noteq>
      (case s of [] \<Rightarrow> False | c # _ \<Rightarrow> is_word c))"

fun rsize :: "regex \<Rightarrow> nat" where
  "rsize (Seq r1 r2) = Suc (rsize r1 + rsize r2)"
| "rsize (Alt r1 r2) = Suc (rsize r1 + rsize r2)"
| "rsize (Star r) = Suc (rsize r)"
| "rsize (Lookahead r) = Suc (rsize r)"
| "rsize _ = 0"

function rmatch :: "regex \<Rightarrow> rstate \<Rightarrow> rstate list" where
  "rmatch Eps st = [st]"
| "rmatch (Atom p) (pc, []) = []"
| "rmatch (Atom p) (pc, c # cs) = (if p c then [(Some c, cs)] else [])"
| "rmatch (Seq r1 r2) st = concat (map (rmatch r2) (rmatch r1 st))"
| "rmatch (Alt r1 r2) st = rmatch r1 st @ rmatch r2 st"
| "rmatch (Star r) st =
     concat (map (\<lambda>st'. if length (snd st') < length (snd st) then rmatch (Star r) st' else [])
                 (rmatch r st)) @ [st]"
| "rmatch WordBoundary st = (if at_word_boundary st then [st] else [])"
| "rmatch EndOfInput st = (if snd st = [] then [st] else [])"
| "rmatch (Lookahead r) st = (if rmatch r st = [] then [] else [st])"
  by pat_completeness auto
termination
  by (relation "inv_image (less_than <*lex*> less_than) (\<lambda>(r, st). (rsize r, length (snd st)))") auto

text \<open>Derived forms: a literal character, \<^verbatim>\<open>r+\<close>, \<^verbatim>\<open>r?\<close>, a literal string,
  \<^verbatim>\<open>r{n}\<close>, \<^verbatim>\<open>r{0,n}\<close>, \<^verbatim>\<open>r{n,}\<close>, \<^verbatim>\<open>r{m,n}\<close>, and the flag \<^verbatim>\<open>i\<close>.\<close>

definition Chr :: "char \<Rightarrow> regex" where
  "Chr c = Atom (\<lambda>x. x = c)"

definition Plus :: "regex \<Rightarrow> regex" where
  "Plus r = Seq r (Star r)"

definition Opt :: "regex \<Rightarrow> regex" where
  "Opt r = Alt r Eps"

fun Str :: "string \<Rightarrow> regex" where
  "Str [] = Eps"
| "Str (c # cs) = Seq (Chr c) (Str cs)"

fun Times :: "nat \<Rightarrow> regex \<Rightarrow> regex" where
  "Times 0 r = Eps"
| "Times (Suc n) r = Seq r (Times n r)"

fun UpTo :: "nat \<Rightarrow> regex \<Rightarrow> regex" where
  "UpTo 0 r = Eps"
| "UpTo (Suc n) r = Alt (Seq r (UpTo n r)) Eps"

definition AtLeast :: "nat \<Rightarrow> regex \<Rightarrow> regex" where
  "AtLeast n r = Seq (Times n r) (Star r)"

definition Between :: "nat \<Rightarrow> nat \<Rightarrow> regex \<Rightarrow> regex" where
  "Between m n r = Seq (Times m r) (UpTo (n - m) r)"

definition either_case :: "(char \<Rightarrow> bool) \<Rightarrow> char \<Rightarrow> bool" where
  "either_case p c = (p (to_lower c) \<or> p (to_upper c))"

fun ignore_case :: "regex \<Rightarrow> regex" where
  "ignore_case (Atom p) = Atom (either_case p)"
| "ignore_case (Seq r1 r2) = Seq (ignore_case r1) (ignore_case r2)"
| "ignore_case (Alt r1 r2) = Alt (ignore_case r1) (ignore_case r2)"
| "ignore_case (Star r) = Star (ignore_case r)"
| "ignore_case (Lookahead r) = Lookahead (ignore_case r)"
| "ignore_case r = r"

text \<open>
  \<^verbatim>\<open>s.replace(r, rep)\<close> for a regular expression with the flag \<^verbatim>\<open>g\<close> and a replacement
  without \<^verbatim>\<open>$\<close>: the leftmost match is replaced and the search goes on behind it; after
  an empty match it goes on one character further.
\<close>

fun replace_all :: "regex \<Rightarrow> string \<Rightarrow> char option \<Rightarrow> string \<Rightarrow> string" where
  "replace_all r rep pc [] = (case rmatch r (pc, []) of [] \<Rightarrow> [] | _ # _ \<Rightarrow> rep)"
| "replace_all r rep pc (c # cs) =
     (case rmatch r (pc, c # cs) of
        [] \<Rightarrow> c # replace_all r rep (Some c) cs
      | (pc', rest) # _ \<Rightarrow>
          (if length rest < length (c # cs) then rep @ replace_all r rep pc' rest
           else rep @ c # replace_all r rep (Some c) cs))"


text \<open>\<^verbatim>\<open>r.test(s)\<close> for a regular expression without the flag \<^verbatim>\<open>g\<close>.\<close>

fun regex_test_from :: "regex \<Rightarrow> char option \<Rightarrow> string \<Rightarrow> bool" where
  "regex_test_from r pc [] = (rmatch r (pc, []) \<noteq> [])"
| "regex_test_from r pc (c # cs) = (rmatch r (pc, c # cs) \<noteq> [] \<or> regex_test_from r (Some c) cs)"

definition regex_test :: "regex \<Rightarrow> string \<Rightarrow> bool" where
  "regex_test r s = regex_test_from r None s"

fun AnyOf :: "regex list \<Rightarrow> regex" where
  "AnyOf [] = Atom (\<lambda>c. False)"
| "AnyOf [r] = r"
| "AnyOf (r # rs) = Alt r (AnyOf rs)"

definition any_char :: "char \<Rightarrow> bool" where
  "any_char c = (c \<noteq> CHR 0x0A \<and> c \<noteq> CHR 0x0D)"



text \<open>
  A JavaScript \<^verbatim>\<open>Set\<close> keeps its elements in the order of their first insertion.
\<close>

definition set_add :: "'a list \<Rightarrow> 'a \<Rightarrow> 'a list" where
  "set_add xs x = (if x \<in> set xs then xs else xs @ [x])"

definition new_Set :: "'a list \<Rightarrow> 'a list" where
  "new_Set xs = fold (\<lambda>x acc. set_add acc x) xs []"

section \<open>Error fingerprints (\<^verbatim>\<open>utils/error-hash.ts\<close>)\<close>

text \<open>The character classes and the thirteen \<^verbatim>\<open>NORMALIZATION_PATTERNS\<close>.\<close>

definition digit :: regex where "digit = Atom is_digit"
definition wordc :: regex where "wordc = Atom is_word"
definition space :: regex where "space = Atom is_space"

definition hex_lower :: "char \<Rightarrow> bool" where
  "hex_lower c = (is_digit c \<or> (97 \<le> (of_char c :: nat) \<and> (of_char c :: nat) \<le> 102))"

definition hex_any :: "char \<Rightarrow> bool" where
  "hex_any c = (hex_lower c \<or> (65 \<le> (of_char c :: nat) \<and> (of_char c :: nat) \<le> 70))"

definition path_char :: "char \<Rightarrow> bool" where
  "path_char c = (is_word c \<or> c = CHR ''.'' \<or> c = CHR ''-'')"

definition win_path_char :: "char \<Rightarrow> bool" where
  "win_path_char c = (is_word c \<or> c = CHR 0x5C \<or> c = CHR ''.'' \<or> c = CHR ''-'')"

definition path_segment :: regex where
  "path_segment = Seq (Chr CHR ''/'') (Plus (Atom path_char))"

definition rx_posix_path :: regex where
  "rx_posix_path =
     Seq (Plus path_segment) (Seq (Star path_segment) (Seq (Chr CHR ''.'') (Plus wordc)))"

definition rx_windows_path :: regex where
  "rx_windows_path =
     ignore_case (Plus (Seq (Atom is_upper) (Seq (Chr CHR '':'') (Seq (Chr CHR 0x5C)
       (Plus (Atom win_path_char))))))"

definition rx_line_number :: regex where
  "rx_line_number =
     ignore_case (Seq (Alt (Str ''line'') (Alt (Str ''ln'') (Str ''L'')))
       (Seq (Star space) (Seq (Opt (Chr CHR '':'')) (Seq (Star space) (Plus digit)))))"

definition rx_line_col :: regex where
  "rx_line_col = Seq (Chr CHR '':'') (Seq (Plus digit) (Seq (Chr CHR '':'') (Plus digit)))"

definition rx_address :: regex where
  "rx_address = Seq (Str ''0x'') (Plus (Atom hex_any))"

definition rx_uuid :: regex where
  "rx_uuid =
     ignore_case (Seq (Times 8 (Atom hex_lower)) (Seq (Chr CHR ''-'')
       (Seq (Times 4 (Atom hex_lower)) (Seq (Chr CHR ''-'')
       (Seq (Times 4 (Atom hex_lower)) (Seq (Chr CHR ''-'')
       (Seq (Times 4 (Atom hex_lower)) (Seq (Chr CHR ''-'')
       (Times 12 (Atom hex_lower))))))))))"

definition rx_timestamp :: regex where
  "rx_timestamp =
     Seq (Times 4 digit) (Seq (Chr CHR ''-'') (Seq (Times 2 digit) (Seq (Chr CHR ''-'')
     (Seq (Times 2 digit) (Seq (Atom (\<lambda>c. c = CHR ''T'' \<or> c = CHR '' ''))
     (Seq (Times 2 digit) (Seq (Chr CHR '':'') (Seq (Times 2 digit) (Seq (Chr CHR '':'')
     (Seq (Times 2 digit)
     (Seq (Opt (Seq (Chr CHR ''.'') (Plus digit)))
          (Opt (Alt (Chr CHR ''Z'')
                    (Seq (Atom (\<lambda>c. c = CHR ''+'' \<or> c = CHR ''-''))
                    (Seq (Times 2 digit) (Seq (Opt (Chr CHR '':'')) (Times 2 digit)))))))))))))))))"

definition rx_long_number :: regex where
  "rx_long_number = Seq WordBoundary (Seq (AtLeast 5 digit) WordBoundary)"

definition rx_ip_address :: regex where
  "rx_ip_address =
     Seq WordBoundary (Seq (Between 1 3 digit) (Seq (Chr CHR ''.'')
       (Seq (Between 1 3 digit) (Seq (Chr CHR ''.'')
       (Seq (Between 1 3 digit) (Seq (Chr CHR ''.'')
       (Seq (Between 1 3 digit) WordBoundary)))))))"

definition rx_port :: regex where
  "rx_port =
     Seq (Chr CHR '':'') (Seq (Between 2 5 digit)
       (Lookahead (Alt space (Alt EndOfInput (Chr CHR ''/'')))))"

definition rx_long_dquote :: regex where
  "rx_long_dquote =
     Seq (Chr CHR 0x22) (Seq (AtLeast 50 (Atom (\<lambda>c. c \<noteq> CHR 0x22))) (Chr CHR 0x22))"

definition rx_long_squote :: regex where
  "rx_long_squote =
     Seq (Chr CHR 0x27) (Seq (AtLeast 50 (Atom (\<lambda>c. c \<noteq> CHR 0x27))) (Chr CHR 0x27))"

definition rx_whitespace :: regex where
  "rx_whitespace = Plus space"

definition NORMALIZATION_PATTERNS :: "(regex \<times> string) list" where
  "NORMALIZATION_PATTERNS =
     [(rx_posix_path, ''<FILE_PATH>''),
      (rx_windows_path, ''<FILE_PATH>''),
      (rx_line_number, ''line <LINE>''),
      (rx_line_col, '':<LINE>:<COL>''),
      (rx_address, ''<ADDR>''),
      (rx_uuid, ''<UUID>''),
      (rx_timestamp, ''<TIMESTAMP>''),
      (rx_long_number, ''<ID>''),
      (rx_ip_address, ''<IP>''),
      (rx_port, '':<PORT>''),
      (rx_long_dquote, [CHR 0x22] @ ''<LONG_STRING>'' @ [CHR 0x22]),
      (rx_long_squote, [CHR 0x27] @ ''<LONG_STRING>'' @ [CHR 0x27]),
      (rx_whitespace, '' '')]"

text \<open>\<^verbatim>\<open>normalizeErrorMessage\<close>: the patterns are applied in their order.\<close>

definition normalizeErrorMessage :: "string \<Rightarrow> string" where
  "normalizeErrorMessage message =
     trim (toLowerCase
       (fold (\<lambda>(pattern, replacement) normalized. replace_all pattern replacement None normalized)
             NORMALIZATION_PATTERNS (trim message)))"


text \<open>
  \<^verbatim>\<open>generateErrorHash\<close>: the SHA-256 digest of the Node.js \<^verbatim>\<open>crypto\<close> module is a
  parameter, \<open>sha256\<close>, which maps the content to the digest in hexadecimal.
\<close>

definition generateErrorHash :: "(string \<Rightarrow> string) \<Rightarrow> string \<Rightarrow> string \<Rightarrow> string" where
  "generateErrorHash sha256 message errorType =
     (let normalized = normalizeErrorMessage message;
          content = errorType @ '':'' @ normalized
      in sha256 content)"

definition errorTypePatterns :: "(regex \<times> string) list" where
  "errorTypePatterns =
     [(ignore_case (Str ''TypeError''), ''TypeError''),
      (ignore_case (Str ''ReferenceError''), ''ReferenceError''),
      (ignore_case (Str ''SyntaxError''), ''SyntaxError''),
      (ignore_case (Str ''RangeError''), ''RangeError''),
      (ignore_case (Str ''URIError''), ''URIError''),
      (ignore_case (Str ''EvalError''), ''EvalError''),
      (ignore_case (Str ''ENOENT''), ''FileNotFound''),
      (ignore_case (Str ''EACCES''), ''PermissionDenied''),
      (ignore_case (Str ''ECONNREFUSED''), ''ConnectionRefused''),
      (ignore_case (Str ''ETIMEDOUT''), ''Timeout''),
      (ignore_case (Str ''ENOTFOUND''), ''NotFound''),
      (ignore_case (Str ''AssertionError''), ''AssertionError''),
      (ignore_case (Str ''ValidationError''), ''ValidationError''),
      (ignore_case (Str ''AuthenticationError''), ''AuthenticationError''),
      (ignore_case (Str ''AuthorizationError''), ''AuthorizationError''),
      (ignore_case (Str ''NetworkError''), ''NetworkError''),
      (ignore_case (Str ''DatabaseError''), ''DatabaseError''),
      (ignore_case (Str ''ParseError''), ''ParseError''),
      (ignore_case (Seq WordBoundary (Seq (Str ''ESLint'') WordBoundary)), ''LintError''),
      (ignore_case (Seq WordBoundary (Seq (Str ''TypeScript'') (Seq WordBoundary
         (Seq (Star (Atom any_char)) (Str ''error''))))), ''TypeScriptError''),
      (ignore_case (Str ''compilation failed''), ''CompilationError''),
      (ignore_case (Str ''test failed''), ''TestFailure''),
      (ignore_case (Str ''assertion failed''), ''AssertionError'')]"

fun first_matching_type :: "(regex \<times> string) list \<Rightarrow> string \<Rightarrow> string \<Rightarrow> string" where
  "first_matching_type [] message defaultType = defaultType"
| "first_matching_type ((pattern, type) # rest) message defaultType =
     (if regex_test pattern message then type else first_matching_type rest message defaultType)"

definition extractErrorType :: "string \<Rightarrow> string \<Rightarrow> string" where
  "extractErrorType message defaultType = first_matching_type errorTypePatterns message defaultType"

datatype ErrorSeverity = Low | Medium | High | Critical

definition rx_critical_security :: regex where
  "rx_critical_security =
     ignore_case (AnyOf [Str ''security'', Str ''vulnerability'', Str ''injection'', Str ''xss'', Str ''csrf'', Str ''breach'', Str ''leak'', Str ''expose''])"

definition rx_critical_data :: regex where
  "rx_critical_data =
     ignore_case (AnyOf [Str ''data loss'', Str ''corruption'', Str ''critical'', Str ''fatal'', Str ''unrecoverable''])"

definition rx_high_crash :: regex where
  "rx_high_crash =
     ignore_case (AnyOf [Str ''crash'', Str ''panic'', Str ''segfault'', Str ''out of memory'', Str ''heap'', Str ''stack overflow''])"

definition rx_high_auth :: regex where
  "rx_high_auth =
     ignore_case (AnyOf [Str ''authentication'', Str ''authorization'', Str ''permission denied'', Str ''access denied''])"

definition rx_high_infra :: regex where
  "rx_high_infra =
     ignore_case (AnyOf [Str ''database'', Str ''connection failed'', Str ''service unavailable''])"

definition rx_medium_error :: regex where
  "rx_medium_error =
     ignore_case (AnyOf [Str ''error'', Str ''exception'', Str ''failed'', Str ''failure'', Str ''invalid'', Str ''unexpected''])"

definition rx_medium_retry :: regex where
  "rx_medium_retry =
     ignore_case (AnyOf [Str ''timeout'', Str ''retry'', Str ''not found'', Str ''missing''])"

definition suggestSeverity :: "string \<Rightarrow> ErrorSeverity" where
  "suggestSeverity message =
     (let lowerMessage = toLowerCase message
      in if regex_test rx_critical_security lowerMessage \<or> regex_test rx_critical_data lowerMessage
         then Critical
         else if regex_test rx_high_crash lowerMessage \<or> regex_test rx_high_auth lowerMessage \<or>
                 regex_test rx_high_infra lowerMessage
         then High
         else if regex_test rx_medium_error lowerMessage \<or> regex_test rx_medium_retry lowerMessage
         then Medium
         else Low)"

text \<open>
  The patterns of \<^verbatim>\<open>extractTags\<close> are words between two \<^verbatim>\<open>\b\<close>, some with an optional
  ending, some alternatives of such words, all with the flag \<^verbatim>\<open>i\<close>.
\<close>

definition word_rx :: "string \<Rightarrow> regex" where
  "word_rx w = Seq WordBoundary (Seq (Str w) WordBoundary)"

definition word_opt_rx :: "string \<Rightarrow> string list \<Rightarrow> regex" where
  "word_opt_rx w endings = Seq WordBoundary (Seq (Str w) (Seq (Opt (AnyOf (map Str endings))) WordBoundary))"

definition techPatterns :: "(regex \<times> string) list" where
  "techPatterns =
     [(ignore_case (word_rx ''react''), ''react''),
      (ignore_case (word_rx ''vue''), ''vue''),
      (ignore_case (word_rx ''angular''), ''angular''),
      (ignore_case (word_opt_rx ''node'' [''js'']), ''nodejs''),
      (ignore_case (word_rx ''typescript''), ''typescript''),
      (ignore_case (word_rx ''javascript''), ''javascript''),
      (ignore_case (word_rx ''python''), ''python''),
      (ignore_case (word_rx ''rust''), ''rust''),
      (ignore_case (word_opt_rx ''go'' [''lang'']), ''golang''),
      (ignore_case (word_rx ''webpack''), ''webpack''),
      (ignore_case (word_rx ''vite''), ''vite''),
      (ignore_case (word_rx ''est''), ''esbuild''),
      (ignore_case (word_rx ''npm''), ''npm''),
      (ignore_case (word_rx ''yarn''), ''yarn''),
      (ignore_case (word_rx ''pnpm''), ''pnpm''),
      (ignore_case (word_rx ''git''), ''git''),
      (ignore_case (word_rx ''docker''), ''docker''),
      (ignore_case (AnyOf [word_rx ''kubernetes'', word_rx ''k8s'']), ''kubernetes''),
      (ignore_case (word_rx ''aws''), ''aws''),
      (ignore_case (word_opt_rx ''postgres'' [''ql'']), ''postgresql''),
      (ignore_case (word_rx ''mysql''), ''mysql''),
      (ignore_case (word_rx ''mongodb''), ''mongodb''),
      (ignore_case (word_rx ''redis''), ''redis''),
      (ignore_case (word_rx ''sqlite''), ''sqlite''),
      (ignore_case (word_rx ''http''), ''http''),
      (ignore_case (word_rx ''api''), ''api''),
      (ignore_case (word_rx ''rest''), ''rest''),
      (ignore_case (word_rx ''graphql''), ''graphql''),
      (ignore_case (word_rx ''websocket''), ''websocket'')]"

definition domainPatterns :: "(regex \<times> string) list" where
  "domainPatterns =
     [(ignore_case (word_opt_rx ''auth'' [''entication'', ''orization'']), ''authentication''),
      (ignore_case (word_rx ''validation''), ''validation''),
      (ignore_case (AnyOf [word_rx ''parsing'', word_rx ''parse'']), ''parsing''),
      (ignore_case (word_rx ''network''), ''network''),
      (ignore_case (AnyOf [word_rx ''file'', word_rx ''filesystem'']), ''filesystem''),
      (ignore_case (AnyOf [word_rx ''database'', word_rx ''db'']), ''database''),
      (ignore_case (AnyOf [word_rx ''cache'', word_rx ''caching'']), ''caching''),
      (ignore_case (AnyOf [word_rx ''async'', word_rx ''promise'']), ''async''),
      (ignore_case (AnyOf [word_rx ''type'', word_rx ''typing'']), ''types''),
      (ignore_case (AnyOf [word_rx ''import'', word_rx ''export'', word_rx ''module'']), ''modules''),
      (ignore_case (AnyOf [word_rx ''build'', word_rx ''compile'']), ''build''),
      (ignore_case (AnyOf [word_rx ''test'', word_rx ''testing'']), ''testing''),
      (ignore_case (AnyOf [word_rx ''deploy'', word_rx ''deployment'']), ''deployment'')]"

fun add_matching_tags :: "(regex \<times> string) list \<Rightarrow> string \<Rightarrow> string list \<Rightarrow> string list" where
  "add_matching_tags [] message tags = tags"
| "add_matching_tags ((pattern, tag) # rest) message tags =
     add_matching_tags rest message (if regex_test pattern message then set_add tags tag else tags)"

definition extractTags :: "string \<Rightarrow> string \<Rightarrow> string list" where
  "extractTags message errorType =
     add_matching_tags domainPatterns message
       (add_matching_tags techPatterns message (set_add [] (toLowerCase errorType)))"

subsection \<open>Token similarity and the combined score (\<^verbatim>\<open>utils/similarity.ts\<close>)\<close>




text \<open>
  \<^verbatim>\<open>xs.sort((a, b) => key(b) - key(a))\<close>: the sort of the runtime is stable, so this is the
  stable sort by descending key.
\<close>

definition sort_desc :: "('a \<Rightarrow> real) \<Rightarrow> 'a list \<Rightarrow> 'a list" where
  "sort_desc key xs = sort_key (\<lambda>x. - key x) xs"

section \<open>The record store (\<^verbatim>\<open>database/schema.ts\<close>)\<close>

text \<open>
  The tables of \<^verbatim>\<open>SCHEMA_SQL\<close>, each a list of rows in the order of insertion. The name of
  a field carries a prefix for its table. Timestamps (\<^verbatim>\<open>datetime('now')\<close>) are natural
  numbers, given to each operation that reads the clock. For each table with an
  \<^verbatim>\<open>AUTOINCREMENT\<close> key the store keeps the largest key it ever gave out, and it keeps the
  key of the last inserted row (\<^verbatim>\<open>lastInsertRowid\<close>).
\<close>

datatype SolutionSource = AutoMode | Agent | Manual

datatype TagCategory = ErrorTypeCategory | TechnologyCategory | FrameworkCategory | DomainCategory | CustomCategory

record ErrorRow =
  e_id :: nat
  e_hash :: string
  e_message :: string
  e_normalized_message :: string
  e_error_type :: string
  e_severity :: ErrorSeverity
  e_stack_trace :: "string option"
  e_file_path :: "string option"
  e_project_name :: "string option"
  e_occurrence_count :: nat
  e_first_seen_at :: nat
  e_last_seen_at :: nat

record SolutionRow =
  s_id :: nat
  s_error_id :: nat
  s_content :: string
  s_code_snippet :: "string option"
  s_success_count :: nat
  s_failure_count :: nat
  s_success_rate :: real
  s_source :: SolutionSource
  s_project_name :: "string option"
  s_created_at :: nat

record TagRow =
  t_id :: nat
  t_name :: string
  t_category :: "TagCategory option"

record EmbeddingRow =
  m_id :: nat
  m_error_id :: nat
  m_embedding :: buffer
  m_model :: string
  m_dimensions :: nat

record database =
  errors :: "ErrorRow list"
  solutions :: "SolutionRow list"
  tags :: "TagRow list"
  error_tags :: "(nat \<times> nat) list"
  embeddings :: "EmbeddingRow list"
  errors_seq :: nat
  solutions_seq :: nat
  tags_seq :: nat
  embeddings_seq :: nat
  last_insert_rowid :: nat

definition empty_database :: database where
  "empty_database =
     \<lparr>errors = [], solutions = [], tags = [], error_tags = [], embeddings = [],
      errors_seq = 0, solutions_seq = 0, tags_seq = 0, embeddings_seq = 0,
      last_insert_rowid = 0\<rparr>"

text \<open>The key \<^verbatim>\<open>AUTOINCREMENT\<close> gives to a new row.\<close>

definition next_rowid :: "nat \<Rightarrow> nat list \<Rightarrow> nat" where
  "next_rowid seq ids = Suc (fold max ids seq)"

text \<open>
  The column \<^verbatim>\<open>success_rate\<close> is \<^verbatim>\<open>GENERATED ALWAYS AS (...) STORED\<close>: the store computes it
  from the two counters whenever it writes a row of \<^verbatim>\<open>solutions\<close>.
\<close>

definition generated_success_rate :: "nat \<Rightarrow> nat \<Rightarrow> real" where
  "generated_success_rate success_count failure_count =
     (if success_count + failure_count = 0 then 0
      else real success_count / real (success_count + failure_count))"

definition write_solution :: "SolutionRow \<Rightarrow> SolutionRow" where
  "write_solution r =
     r\<lparr>s_success_rate := generated_success_rate (s_success_count r) (s_failure_count r)\<rparr>"

text \<open>A JavaScript value \<^verbatim>\<open>x || null\<close> for an optional string \<open>x\<close>, and its truth.\<close>

definition or_null :: "string option \<Rightarrow> string option" where
  "or_null x = (case x of None \<Rightarrow> None | Some s \<Rightarrow> if s = [] then None else Some s)"


section \<open>Tags (\<^verbatim>\<open>services/tag-service.ts\<close>)\<close>

text \<open>
  A function that writes to the store returns its result, or the exception it throws,
  together with the store it leaves behind: the statements are not in a transaction, so
  what was written before an exception stays written.
\<close>

definition getTagByName :: "database \<Rightarrow> string \<Rightarrow> TagRow option" where
  "getTagByName db name =
     (let normalizedName = trim (toLowerCase name)
      in find (\<lambda>row. t_name row = normalizedName) (tags db))"

text \<open>\<^verbatim>\<open>INSERT INTO tags (name, category)\<close>; the column \<^verbatim>\<open>name\<close> is \<^verbatim>\<open>UNIQUE\<close>.\<close>

definition insert_tag :: "string \<Rightarrow> TagCategory option \<Rightarrow> database \<Rightarrow> (error + nat) \<times> database" where
  "insert_tag name category db =
     (if list_ex (\<lambda>row. t_name row = name) (tags db)
      then (Inl (UniqueViolation ''tags.name''), db)
      else
        (let rowid = next_rowid (tags_seq db) (map t_id (tags db))
         in (Inr rowid,
             db\<lparr>tags := tags db @ [\<lparr>t_id = rowid, t_name = name, t_category = category\<rparr>],
                tags_seq := rowid, last_insert_rowid := rowid\<rparr>)))"

definition createTag :: "string \<Rightarrow> TagCategory option \<Rightarrow> database \<Rightarrow> (error + TagRow) \<times> database" where
  "createTag name category db =
     (let normalizedName = trim (toLowerCase name)
      in case insert_tag normalizedName category db of
           (Inl e, db') \<Rightarrow> (Inl e, db')
         | (Inr tagId, db') \<Rightarrow>
             (Inr \<lparr>t_id = tagId, t_name = normalizedName, t_category = category\<rparr>, db'))"

text \<open>The loop of \<^verbatim>\<open>getOrCreateTags\<close>, with the array \<^verbatim>\<open>results\<close> built so far.\<close>

fun getOrCreateTags_loop ::
  "string list \<Rightarrow> TagCategory option \<Rightarrow> TagRow list \<Rightarrow> database \<Rightarrow> (error + TagRow list) \<times> database" where
  "getOrCreateTags_loop [] category results db = (Inr results, db)"
| "getOrCreateTags_loop (name # names) category results db =
     (let normalizedName = trim (toLowerCase name)
      in if normalizedName = [] then getOrCreateTags_loop names category results db
         else
           (case getTagByName db normalizedName of
              Some tag \<Rightarrow> getOrCreateTags_loop names category (results @ [tag]) db
            | None \<Rightarrow>
                (case createTag normalizedName category db of
                   (Inl e, db') \<Rightarrow> (Inl e, db')
                 | (Inr tag, db') \<Rightarrow> getOrCreateTags_loop names category (results @ [tag]) db')))"

definition getOrCreateTags ::
  "string list \<Rightarrow> TagCategory option \<Rightarrow> database \<Rightarrow> (error + TagRow list) \<times> database" where
  "getOrCreateTags names category db = getOrCreateTags_loop names category [] db"

text \<open>
  \<^verbatim>\<open>SELECT t.* FROM tags t INNER JOIN error_tags et ON t.id = et.tag_id WHERE et.error_id = ?
  ORDER BY t.name ASC\<close>.
\<close>

definition getTagsByErrorId :: "database \<Rightarrow> nat \<Rightarrow> TagRow list" where
  "getTagsByErrorId db errorId =
     sort_key t_name (filter (\<lambda>row. (errorId, t_id row) \<in> set (error_tags db)) (tags db))"

text \<open>
  \<^verbatim>\<open>INSERT OR IGNORE INTO error_tags (error_id, tag_id)\<close>; the pair is the primary key. The
  two rows the pair refers to exist wherever the modelled code runs this statement.
\<close>

definition insert_error_tag :: "nat \<Rightarrow> nat \<Rightarrow> database \<Rightarrow> database" where
  "insert_error_tag errorId tagId db =
     (if (errorId, tagId) \<in> set (error_tags db) then db
      else db\<lparr>error_tags := error_tags db @ [(errorId, tagId)]\<rparr>)"

definition addTagsToError :: "nat \<Rightarrow> nat list \<Rightarrow> database \<Rightarrow> database" where
  "addTagsToError errorId tagIds db = fold (insert_error_tag errorId) tagIds db"

section \<open>Errors (\<^verbatim>\<open>services/error-service.ts\<close>)\<close>

record ErrorInput =
  ei_message :: string
  ei_errorType :: string
  ei_severity :: "ErrorSeverity option"
  ei_stackTrace :: "string option"
  ei_filePath :: "string option"
  ei_projectName :: "string option"
  ei_tags :: "string list option"

text \<open>
  An \<^verbatim>\<open>ErrorRecord\<close> has the fields of a row of \<^verbatim>\<open>errors\<close> under other names
  (\<^verbatim>\<open>rowToErrorRecord\<close>); the model uses the row for both. An \<^verbatim>\<open>ErrorWithTags\<close> is such
  a record with the names of its tags.
\<close>

record ErrorWithTags =
  w_error :: ErrorRow
  w_tags :: "string list"



text \<open>\<^verbatim>\<open>INSERT INTO errors (...)\<close>; the column \<^verbatim>\<open>hash\<close> is \<^verbatim>\<open>UNIQUE\<close>.\<close>

definition insert_error ::
  "nat \<Rightarrow> string \<Rightarrow> string \<Rightarrow> string \<Rightarrow> string \<Rightarrow> ErrorSeverity \<Rightarrow> string option \<Rightarrow> string option \<Rightarrow>
   string option \<Rightarrow> database \<Rightarrow> (error + nat) \<times> database" where
  "insert_error now hash message normalizedMessage errorType severity stackTrace filePath projectName db =
     (if list_ex (\<lambda>row. e_hash row = hash) (errors db)
      then (Inl (UniqueViolation ''errors.hash''), db)
      else
        (let rowid = next_rowid (errors_seq db) (map e_id (errors db))
         in (Inr rowid,
             db\<lparr>errors := errors db @
                   [\<lparr>e_id = rowid, e_hash = hash, e_message = message,
                     e_normalized_message = normalizedMessage, e_error_type = errorType,
                     e_severity = severity, e_stack_trace = stackTrace, e_file_path = filePath,
                     e_project_name = projectName, e_occurrence_count = 1,
                     e_first_seen_at = now, e_last_seen_at = now\<rparr>],
                errors_seq := rowid, last_insert_rowid := rowid\<rparr>)))"

text \<open>
  \<^verbatim>\<open>UPDATE errors SET occurrence_count = occurrence_count + 1, last_seen_at = datetime('now')
  WHERE id = ?\<close>.
\<close>

definition update_error_seen :: "nat \<Rightarrow> nat \<Rightarrow> database \<Rightarrow> database" where
  "update_error_seen now errorId db =
     db\<lparr>errors :=
          map (\<lambda>row. if e_id row = errorId
                      then row\<lparr>e_occurrence_count := e_occurrence_count row + 1,
                               e_last_seen_at := now\<rparr>
                      else row)
              (errors db)\<rparr>"

definition recordError ::
  "(string \<Rightarrow> string) \<Rightarrow> nat \<Rightarrow> ErrorInput \<Rightarrow> database \<Rightarrow> (error + nat) \<times> database" where
  "recordError sha256 now input db =
     (let errorType = (if ei_errorType input \<noteq> [] then ei_errorType input
                       else extractErrorType (ei_message input) ''unknown'');
          severity = (case ei_severity input of
                        Some s \<Rightarrow> s
                      | None \<Rightarrow> suggestSeverity (ei_message input));
          normalizedMessage = normalizeErrorMessage (ei_message input);
          hash = generateErrorHash sha256 (ei_message input) errorType
      in case find (\<lambda>row. e_hash row = hash) (errors db) of
           Some existing \<Rightarrow> (Inr (e_id existing), update_error_seen now (e_id existing) db)
         | None \<Rightarrow>
             (case insert_error now hash (ei_message input) normalizedMessage errorType severity
                     (or_null (ei_stackTrace input)) (or_null (ei_filePath input))
                     (or_null (ei_projectName input)) db of
                (Inl e, db1) \<Rightarrow> (Inl e, db1)
              | (Inr errorId, db1) \<Rightarrow>
                  (let autoTags = extractTags (ei_message input) errorType;
                       allTags = new_Set ((case ei_tags input of None \<Rightarrow> [] | Some ts \<Rightarrow> ts) @ autoTags)
                   in if length allTags > 0
                      then (case getOrCreateTags allTags None db1 of
                              (Inl e, db2) \<Rightarrow> (Inl e, db2)
                            | (Inr tagRecords, db2) \<Rightarrow>
                                (Inr errorId, addTagsToError errorId (map t_id tagRecords) db2))
                      else (Inr errorId, db1))))"

definition with_tags :: "database \<Rightarrow> ErrorRow \<Rightarrow> ErrorWithTags" where
  "with_tags db row = \<lparr>w_error = row, w_tags = map t_name (getTagsByErrorId db (e_id row))\<rparr>"

definition getErrorById :: "database \<Rightarrow> nat \<Rightarrow> ErrorWithTags option" where
  "getErrorById db errorId =
     (case find (\<lambda>row. e_id row = errorId) (errors db) of
        None \<Rightarrow> None
      | Some row \<Rightarrow> Some (with_tags db row))"









section \<open>Solutions (\<^verbatim>\<open>services/solution-service.ts\<close>)\<close>

record SolutionInput =
  si_errorId :: nat
  si_content :: string
  si_codeSnippet :: "string option"
  si_source :: SolutionSource
  si_projectName :: "string option"

definition recordSolution :: "nat \<Rightarrow> SolutionInput \<Rightarrow> database \<Rightarrow> (error + nat) \<times> database" where
  "recordSolution now input db =
     (case find (\<lambda>row. e_id row = si_errorId input) (errors db) of
        None \<Rightarrow> (Inl (ErrorNotFound (si_errorId input)), db)
      | Some error \<Rightarrow>
          (let rowid = next_rowid (solutions_seq db) (map s_id (solutions db))
           in (Inr rowid,
               db\<lparr>solutions := solutions db @
                     [write_solution
                        \<lparr>s_id = rowid, s_error_id = si_errorId input, s_content = si_content input,
                          s_code_snippet = or_null (si_codeSnippet input), s_success_count = 0,
                          s_failure_count = 0, s_success_rate = 0, s_source = si_source input,
                          s_project_name = or_null (si_projectName input), s_created_at = now\<rparr>],
                  solutions_seq := rowid, last_insert_rowid := rowid\<rparr>)))"

text \<open>\<^verbatim>\<open>UPDATE solutions SET column = column + 1 WHERE id = ?\<close>, for one of the two counters.\<close>

definition increment_outcome :: "bool \<Rightarrow> SolutionRow \<Rightarrow> SolutionRow" where
  "increment_outcome success row =
     write_solution
       (if success then row\<lparr>s_success_count := s_success_count row + 1\<rparr>
        else row\<lparr>s_failure_count := s_failure_count row + 1\<rparr>)"

definition recordSolutionOutcome :: "nat \<Rightarrow> bool \<Rightarrow> database \<Rightarrow> (error + unit) \<times> database" where
  "recordSolutionOutcome solutionId success db =
     (let changes = length (filter (\<lambda>row. s_id row = solutionId) (solutions db));
          db' = db\<lparr>solutions :=
                     map (\<lambda>row. if s_id row = solutionId then increment_outcome success row else row)
                         (solutions db)\<rparr>
      in if changes = 0 then (Inl (SolutionNotFound solutionId), db') else (Inr (), db'))"

text \<open>
  \<^verbatim>\<open>SELECT * FROM solutions WHERE error_id = ? ORDER BY success_rate DESC, success_count DESC\<close>;
  rows equal in both columns stay in their order.
\<close>

definition getSolutionsForError :: "database \<Rightarrow> nat \<Rightarrow> SolutionRow list" where
  "getSolutionsForError db errorId =
     sort_key (\<lambda>row. - s_success_rate row)
       (sort_key (\<lambda>row. - int (s_success_count row))
          (filter (\<lambda>row. s_error_id row = errorId) (solutions db)))"

section \<open>Embeddings (\<^verbatim>\<open>services/embedding-service.ts\<close>)\<close>

text \<open>
  \<^verbatim>\<open>INSERT INTO embeddings (...) ON CONFLICT(error_id) DO UPDATE SET ...\<close>; the column
  \<^verbatim>\<open>error_id\<close> is \<^verbatim>\<open>UNIQUE\<close>. Only an insertion changes \<^verbatim>\<open>lastInsertRowid\<close>.
\<close>

definition upsert_embedding :: "nat \<Rightarrow> buffer \<Rightarrow> string \<Rightarrow> nat \<Rightarrow> database \<Rightarrow> database" where
  "upsert_embedding errorId embeddingBuffer model dimensions db =
     (if list_ex (\<lambda>row. m_error_id row = errorId) (embeddings db)
      then db\<lparr>embeddings :=
                 map (\<lambda>row. if m_error_id row = errorId
                             then row\<lparr>m_embedding := embeddingBuffer, m_model := model,
                                      m_dimensions := dimensions\<rparr>
                             else row)
                     (embeddings db)\<rparr>
      else
        (let rowid = next_rowid (embeddings_seq db) (map m_id (embeddings db))
         in db\<lparr>embeddings := embeddings db @
                  [\<lparr>m_id = rowid, m_error_id = errorId, m_embedding = embeddingBuffer,
                    m_model = model, m_dimensions = dimensions\<rparr>],
               embeddings_seq := rowid, last_insert_rowid := rowid\<rparr>))"

definition storeEmbedding ::
  "(real \<Rightarrow> 32 word) \<Rightarrow> (nat \<Rightarrow> byte) \<Rightarrow> nat \<Rightarrow> real list \<Rightarrow> string \<Rightarrow> database \<Rightarrow> (error + nat) \<times> database" where
  "storeEmbedding enc mem errorId embedding model db =
     (case find (\<lambda>row. e_id row = errorId) (errors db) of
        None \<Rightarrow> (Inl (ErrorNotFound errorId), db)
      | Some error \<Rightarrow>
          (case floatArrayToBuffer enc mem embedding of
             Inl e \<Rightarrow> (Inl e, db)
           | Inr embeddingBuffer \<Rightarrow>
               (let db' = upsert_embedding errorId embeddingBuffer model (length embedding) db
                in (Inr (last_insert_rowid db'), db'))))"

text \<open>
  The first loop of \<^verbatim>\<open>findSimilarByEmbedding\<close>, over the rows of \<^verbatim>\<open>embeddings\<close>, with the
  array \<^verbatim>\<open>results\<close> built so far.
\<close>

fun embedding_scan ::
  "(32 word \<Rightarrow> real) \<Rightarrow> real list \<Rightarrow> real \<Rightarrow> EmbeddingRow list \<Rightarrow> (nat \<times> real) list \<Rightarrow>
   error + (nat \<times> real) list" where
  "embedding_scan dec targetEmbedding minSimilarity [] results = Inr results"
| "embedding_scan dec targetEmbedding minSimilarity (row # rows) results =
     (case bufferToFloatArray dec (m_embedding row) of
        Inl e \<Rightarrow> Inl e
      | Inr embedding \<Rightarrow>
          if length embedding \<noteq> length targetEmbedding
          then embedding_scan dec targetEmbedding minSimilarity rows results
          else
            (case cosineSimilarity targetEmbedding embedding of
               Inl e \<Rightarrow> Inl e
             | Inr similarity \<Rightarrow>
                 if similarity \<ge> minSimilarity
                 then embedding_scan dec targetEmbedding minSimilarity rows
                        (results @ [(m_error_id row, similarity)])
                 else embedding_scan dec targetEmbedding minSimilarity rows results))"

text \<open>The second loop: the full error records of the results, where they exist.\<close>

fun fetch_errors :: "database \<Rightarrow> (nat \<times> real) list \<Rightarrow> (ErrorWithTags \<times> real) list" where
  "fetch_errors db [] = []"
| "fetch_errors db ((errorId, similarity) # rest) =
     (case getErrorById db errorId of
        Some error \<Rightarrow> (error, similarity) # fetch_errors db rest
      | None \<Rightarrow> fetch_errors db rest)"

definition findSimilarByEmbedding ::
  "(32 word \<Rightarrow> real) \<Rightarrow> database \<Rightarrow> real list \<Rightarrow> nat option \<Rightarrow> real option \<Rightarrow>
   error + (ErrorWithTags \<times> real) list" where
  "findSimilarByEmbedding dec db targetEmbedding opt_limit opt_minSimilarity =
     (let limit = (case opt_limit of None \<Rightarrow> 10 | Some l \<Rightarrow> l);
          minSimilarity = (case opt_minSimilarity of None \<Rightarrow> 0.7 | Some m \<Rightarrow> m)
      in case embedding_scan dec targetEmbedding minSimilarity (embeddings db) [] of
           Inl e \<Rightarrow> Inl e
         | Inr results \<Rightarrow>
             (let sorted = take limit (sort_desc snd results)
              in Inr (fetch_errors db sorted)))"

section \<open>The memory service (\<^verbatim>\<open>services/memory-service.ts\<close>)\<close>

datatype MatchType = ExactMatch | HashMatch | SemanticMatch | TagMatch

record ErrorSearchResult =
  r_error :: ErrorWithTags
  r_solutions :: "SolutionRow list"
  r_similarity :: "real option"
  r_matchType :: MatchType




text \<open>The key of the error of a result.\<close>

definition error_id_of :: "ErrorWithTags \<times> real \<Rightarrow> nat" where
  "error_id_of result = e_id (w_error (fst result))"

definition result_id :: "ErrorSearchResult \<Rightarrow> nat" where
  "result_id result = e_id (w_error (r_error result))"

text \<open>
  The two loops of \<^verbatim>\<open>findSimilar\<close> that push the results of a strategy differ in the
  object they push: \<open>semantic_result\<close> in the first loop, \<open>text_result\<close> in the second. A
  result whose error is in \<^verbatim>\<open>seenIds\<close> is skipped. The state of a loop is the pair of
  \<^verbatim>\<open>results\<close> and \<^verbatim>\<open>seenIds\<close>.
\<close>

definition semantic_result :: "database \<Rightarrow> ErrorWithTags \<times> real \<Rightarrow> ErrorSearchResult" where
  "semantic_result db result =
     \<lparr>r_error = fst result, r_solutions = getSolutionsForError db (error_id_of result),
      r_similarity = Some (snd result), r_matchType = SemanticMatch\<rparr>"

definition text_result :: "database \<Rightarrow> ErrorWithTags \<times> real \<Rightarrow> ErrorSearchResult" where
  "text_result db result =
     \<lparr>r_error = fst result, r_solutions = getSolutionsForError db (error_id_of result),
      r_similarity = Some (snd result),
      r_matchType = (if snd result = 1.0 then ExactMatch else HashMatch)\<rparr>"

















section \<open>Sequences of operations\<close>

text \<open>
  The operations that write to the store, and the store after a sequence of them. An
  operation that throws leaves the store as it is when the exception is raised.
\<close>

datatype operation =
    RecordError nat ErrorInput
  | RecordSolution nat SolutionInput
  | RecordSolutionOutcome nat bool
  | StoreEmbedding nat "real list" string

fun perform ::
  "(string \<Rightarrow> string) \<Rightarrow> (real \<Rightarrow> 32 word) \<Rightarrow> (nat \<Rightarrow> byte) \<Rightarrow> operation \<Rightarrow> database \<Rightarrow> database" where
  "perform sha256 enc mem (RecordError now input) db = snd (recordError sha256 now input db)"
| "perform sha256 enc mem (RecordSolution now input) db = snd (recordSolution now input db)"
| "perform sha256 enc mem (RecordSolutionOutcome solutionId success) db =
     snd (recordSolutionOutcome solutionId success db)"
| "perform sha256 enc mem (StoreEmbedding errorId embedding model) db =
     snd (storeEmbedding enc mem errorId embedding model db)"

definition run ::
  "(string \<Rightarrow> string) \<Rightarrow> (real \<Rightarrow> 32 word) \<Rightarrow> (nat \<Rightarrow> byte) \<Rightarrow> operation list \<Rightarrow> database \<Rightarrow> database" where
  "run sha256 enc mem ops db = fold (perform sha256 enc mem) ops db"

section \<open>Notions used to state the properties\<close>

text \<open>The fingerprint under which \<^verbatim>\<open>recordError\<close> files an input, and the row it inserts.\<close>

definition fingerprint_of :: "(string \<Rightarrow> string) \<Rightarrow> ErrorInput \<Rightarrow> string" where
  "fingerprint_of sha256 input =
     generateErrorHash sha256 (ei_message input)
       (if ei_errorType input \<noteq> [] then ei_errorType input
        else extractErrorType (ei_message input) ''unknown'')"

text \<open>
  What the schema and the services are meant to keep true of the store: fingerprints and
  keys of errors are unique, the stored success rate of every solution is the one its
  counters give, and every embedding has one row per error and four bytes per dimension.
\<close>

definition rate_consistent :: "SolutionRow \<Rightarrow> bool" where
  "rate_consistent row =
     (s_success_rate row = generated_success_rate (s_success_count row) (s_failure_count row))"

definition embedding_packed :: "EmbeddingRow \<Rightarrow> bool" where
  "embedding_packed row = (length (m_embedding row) = 4 * m_dimensions row)"

definition store_ok :: "database \<Rightarrow> bool" where
  "store_ok db =
     (distinct (map e_hash (errors db)) \<and> distinct (map e_id (errors db)) \<and>
      distinct (map s_id (solutions db)) \<and> list_all rate_consistent (solutions db) \<and>
      distinct (map m_error_id (embeddings db)) \<and> list_all embedding_packed (embeddings db))"




text \<open>What \<open>update_error_seen\<close> does to one row.\<close>

definition seen_again :: "nat \<Rightarrow> nat \<Rightarrow> ErrorRow \<Rightarrow> ErrorRow" where
  "seen_again now errorId row =
     (if e_id row = errorId
      then row\<lparr>e_occurrence_count := e_occurrence_count row + 1, e_last_seen_at := now\<rparr>
      else row)"


text \<open>
  Messages to which none of the placeholder patterns applies: ASCII text without a digit, a
  slash, a backslash, a hyphen or a quote. For them normalization is trimming, collapsing
  each run of white space to one space (\<open>collapse_ws\<close>) and lowercasing.
\<close>

definition plain_char :: "char \<Rightarrow> bool" where
  "plain_char c =
     ((of_char c :: nat) < 128 \<and> \<not> is_digit c \<and> c \<noteq> CHR ''/'' \<and> c \<noteq> CHR 0x5C \<and>
      c \<noteq> CHR ''-'' \<and> c \<noteq> CHR 0x22 \<and> c \<noteq> CHR 0x27)"

definition plain :: "string \<Rightarrow> bool" where
  "plain s = list_all plain_char s"

function collapse_ws :: "string \<Rightarrow> string" where
  "collapse_ws [] = []"
| "collapse_ws (c # cs) =
     (if is_space c then CHR '' '' # collapse_ws (dropWhile is_space cs)
      else c # collapse_ws cs)"
  by pat_completeness auto
termination
  by (relation "measure length") (auto simp: length_dropWhile_le less_Suc_eq_le)

definition trimmed :: "string \<Rightarrow> bool" where
  "trimmed s = (s = [] \<or> (\<not> is_space (hd s) \<and> \<not> is_space (last s)))"

text \<open>A regular expression that matches nowhere in a text without a character of \<open>P\<close>.\<close>

definition needs :: "regex \<Rightarrow> (char \<Rightarrow> bool) \<Rightarrow> bool" where
  "needs r P = (\<forall>pc s. list_all (\<lambda>c. \<not> P c) s \<longrightarrow> rmatch r (pc, s) = [])"

section \<open>Sample data\<close>

text \<open>A store with one error, and a solution for it.\<close>

definition db_one_error :: database where
  "db_one_error = empty_database\<lparr>errors :=
      [\<lparr>e_id = 1, e_hash = ''unknown:boom'', e_message = ''boom'', e_normalized_message = ''boom'',
        e_error_type = ''unknown'', e_severity = Low, e_stack_trace = None, e_file_path = None,
        e_project_name = None, e_occurrence_count = 1, e_first_seen_at = 0, e_last_seen_at = 0\<rparr>],
      errors_seq := 1, last_insert_rowid := 1\<rparr>"

definition a_solution :: SolutionInput where
  "a_solution = \<lparr>si_errorId = 1, si_content = ''restart'', si_codeSnippet = None,
      si_source = Manual, si_projectName = None\<rparr>"

text \<open>An error report.\<close>

definition an_error :: ErrorInput where
  "an_error = \<lparr>ei_message = ''boom'', ei_errorType = ''E'', ei_severity = Some Low,
     ei_stackTrace = None, ei_filePath = None, ei_projectName = None, ei_tags = None\<rparr>"

text \<open>
  The store with one error and two embeddings, of one and of two dimensions; the bytes are
  the binary32 numbers 1.0, and 4.0 and 3.0.
\<close>

definition db_two_embeddings :: database where
  "db_two_embeddings = db_one_error\<lparr>embeddings :=
      [\<lparr>m_id = 1, m_error_id = 7, m_embedding = [0, 0, 0x80, 0x3F], m_model = ''m'', m_dimensions = 1\<rparr>,
       \<lparr>m_id = 2, m_error_id = 1, m_embedding = [0, 0, 0x80, 0x40, 0, 0, 0x40, 0x40], m_model = ''m'',
         m_dimensions = 2\<rparr>],
      embeddings_seq := 2\<rparr>"




text \<open>The error of the sample store, as a search returns it.\<close>

definition sample_error :: ErrorWithTags where
  "sample_error = with_tags db_two_embeddings (hd (errors db_one_error))"



section \<open>Properties of the similarity utilities\<close>

lemma cosine_fold:
  "fold (cosine_step a b) [0..<n] (d, x, y) =
     (d + (\<Sum>i<n. a ! i * b ! i), x + (\<Sum>i<n. a ! i * a ! i), y + (\<Sum>i<n. b ! i * b ! i))"
  by (induction n) (simp_all add: cosine_step_def)

lemma sum_squares_nth: "(\<Sum>i<length v. v ! i * v ! i) = (\<Sum>x\<leftarrow>v. x * (x::real))"
  by (simp add: sum_list_sum_nth lessThan_atLeast0)

lemma cosineSimilarity_equal_length:
  assumes "length a = length b"
  shows "cosineSimilarity a b =
     Inr (if magnitude_of a * magnitude_of b = 0 then 0
          else (\<Sum>i<length a. a ! i * b ! i) / (magnitude_of a * magnitude_of b))"
proof (cases "a = []")
  case True
  then show ?thesis using assms by (simp add: cosineSimilarity_def magnitude_of_def)
next
  case False
  have f: "fold (cosine_step a b) [0..<length a] (0, 0, 0) =
      ((\<Sum>i<length a. a ! i * b ! i), (\<Sum>x\<leftarrow>a. x * x), (\<Sum>x\<leftarrow>b. x * x))"
    unfolding cosine_fold using sum_squares_nth [of a] sum_squares_nth [of b] assms by simp
  have "cosineSimilarity a b =
      (let magnitude = sqrt (\<Sum>x\<leftarrow>a. x * x) * sqrt (\<Sum>x\<leftarrow>b. x * x)
       in if magnitude = 0 then Inr 0 else Inr ((\<Sum>i<length a. a ! i * b ! i) / magnitude))"
    unfolding cosineSimilarity_def f using False assms by simp
  then show ?thesis
    by (simp add: magnitude_of_def Let_def)
qed




lemma lev_cell_le: "lev_cell bc ac diag left up \<le> Suc diag"
  by (simp add: lev_cell_def)

lemma lev_row_bound:
  assumes "length prev = length as"
    and "diag \<le> max i j"
    and "\<forall>k<length prev. prev ! k \<le> max i (Suc j + k)"
  shows "length (lev_row bc as prev diag left) = length as \<and>
         (\<forall>k<length as. lev_row bc as prev diag left ! k \<le> max (Suc i) (Suc j + k))"
  using assms
proof (induction as arbitrary: prev diag left j)
  case Nil
  then show ?case by simp
next
  case (Cons ac as)
  then obtain up prev' where ab: "prev = up # prev'"
    by (cases prev) auto
  let ?v = "lev_cell bc ac diag left up"
  have up: "up \<le> max i (Suc j)"
    using Cons.prems(3) ab by force
  have rest: "\<forall>k<length prev'. prev' ! k \<le> max i (Suc (Suc j) + k)"
    using Cons.prems(3) ab by force
  have len: "length prev' = length as"
    using Cons.prems(1) ab by simp
  note ih = Cons.IH [OF len up rest, of ?v]
  have v: "?v \<le> max (Suc i) (Suc j)"
    using lev_cell_le [of bc ac diag left up] Cons.prems(2) by linarith
  show ?case
  proof (intro conjI allI impI)
    show "length (lev_row bc (ac # as) prev diag left) = length (ac # as)"
      using ih ab by (simp add: Let_def)
  next
    fix k assume k: "k < length (ac # as)"
    show "lev_row bc (ac # as) prev diag left ! k \<le> max (Suc i) (Suc j + k)"
    proof (cases k)
      case 0
      then show ?thesis using v ab by (simp add: Let_def)
    next
      case (Suc k')
      then have "k' < length as" using k by simp
      then have "lev_row bc as prev' up ?v ! k' \<le> max (Suc i) (Suc (Suc j) + k')"
        using ih by blast
      then show ?thesis using Suc ab by (simp add: Let_def)
    qed
  qed
qed

lemma lev_rows_bound:
  assumes "length prev = Suc (length a)"
    and "\<forall>k<length prev. prev ! k \<le> max i k"
  shows "length (lev_rows a b (Suc i) prev) = Suc (length a) \<and>
         (\<forall>k\<le>length a. lev_rows a b (Suc i) prev ! k \<le> max (i + length b) k)"
  using assms
proof (induction b arbitrary: i prev)
  case Nil
  then show ?case by (simp add: less_Suc_eq_le)
next
  case (Cons bc bs)
  obtain d t where ab: "prev = d # t"
    using Cons.prems(1) by (cases prev) auto
  have lt: "length t = length a"
    using Cons.prems(1) ab by simp
  have d: "d \<le> max i 0"
    using Cons.prems(2) ab by force
  have t: "\<forall>k<length t. t ! k \<le> max i (Suc 0 + k)"
    using Cons.prems(2) ab by force
  note row = lev_row_bound [OF lt d t, of bc "Suc i"]
  let ?r = "Suc i # lev_row bc a t d (Suc i)"
  have len: "length ?r = Suc (length a)"
    using row by simp
  have bnd: "\<forall>k<length ?r. ?r ! k \<le> max (Suc i) k"
  proof (intro allI impI)
    fix k assume "k < length ?r"
    then show "?r ! k \<le> max (Suc i) k"
      using row by (cases k) auto
  qed
  from Cons.IH [OF len bnd] show ?case
    using ab by simp
qed

lemma levenshteinDistance_le_max:
  "levenshteinDistance a b \<le> max (length a) (length b)"
proof (cases "a = [] \<or> b = []")
  case True
  then show ?thesis by (auto simp: levenshteinDistance_def)
next
  case False
  let ?r0 = "[0..<Suc (length a)]"
  have l0: "length ?r0 = Suc (length a)" by simp
  have b0: "\<forall>k<length ?r0. ?r0 ! k \<le> max 0 k"
    by (metis l0 add_0 max_0L nth_upt order_refl)
  note fin = lev_rows_bound [OF l0 b0, of b]
  let ?m = "lev_rows a b (Suc 0) ?r0"
  have "?m \<noteq> []" using fin by auto
  then have "last ?m = ?m ! length a"
    using fin by (simp add: last_conv_nth)
  moreover have "?m ! length a \<le> max (0 + length b) (length a)"
    using fin by blast
  ultimately show ?thesis
    using False by (simp add: levenshteinDistance_def max.commute)
qed

lemma one_minus_ratio_unit:
  fixes d m :: nat
  assumes "d \<le> m" and "0 < m"
  shows "0 \<le> 1 - real d / real m \<and> 1 - real d / real m \<le> 1"
proof -
  have "real d \<le> real m" using assms(1) by simp
  moreover have "0 < real m" using assms(2) by simp
  ultimately have "real d / real m \<le> 1" by (simp add: divide_le_eq)
  moreover have "0 \<le> real d / real m" by simp
  ultimately show ?thesis by linarith
qed

text \<open>
  C10: for every pair of strings, \<open>levenshteinSimilarity\<close> lies in the closed interval
  from 0 to 1, and \<open>levenshteinDistance\<close> never exceeds the length of the longer string.
\<close>

theorem levenshteinSimilarity_unit_interval:
  "0 \<le> levenshteinSimilarity a b \<and> levenshteinSimilarity a b \<le> 1 \<and>
   levenshteinDistance a b \<le> max (length a) (length b)"
proof (cases "max (length a) (length b) = 0")
  case True
  then show ?thesis
    using levenshteinDistance_le_max [of a b] by (simp add: levenshteinSimilarity_def)
next
  case False
  then have "0 < max (length a) (length b)" by (metis gr0I)
  from one_minus_ratio_unit [OF levenshteinDistance_le_max this]
  show ?thesis
    using False levenshteinDistance_le_max [of a b]
    by (simp only: levenshteinSimilarity_def Let_def if_False simp_thms)
qed

subsection \<open>Buffers\<close>

lemma word_of_bytes_le_float_bytes:
  "word_of_bytes_le (ucast w) (ucast (drop_bit 8 w)) (ucast (drop_bit 16 w)) (ucast (drop_bit 24 w)) = (w :: 32 word)"
  unfolding word_of_bytes_le_def
proof (rule bit_word_eqI)
  fix n assume "n < LENGTH(32)"
  then have n: "n < 32" by simp
  have a: "8 \<le> n \<Longrightarrow> 8 + (n - 8) = n" by simp
  have b: "16 \<le> n \<Longrightarrow> 16 + (n - 16) = n" by simp
  have c: "24 \<le> n \<Longrightarrow> 24 + (n - 24) = n" by simp
  consider "n < 8" | "8 \<le> n" "n < 16" | "16 \<le> n" "n < 24" | "24 \<le> n"
    by linarith
  then show "bit (ucast (ucast w :: byte) OR push_bit 8 (ucast (ucast (drop_bit 8 w) :: byte)) OR
        push_bit 16 (ucast (ucast (drop_bit 16 w) :: byte)) OR
        push_bit 24 (ucast (ucast (drop_bit 24 w) :: byte)) :: 32 word) n = bit w n"
    using n by cases (auto simp: bit_simps a b c)
qed

lemma length_float_bytes_le [simp]: "length (float_bytes_le w) = 4"
  by (simp add: float_bytes_le_def)

lemma readFloatLE_at:
  "readFloatLE dec (pre @ float_bytes_le w @ post) (length pre) = Inr (dec w)"
  by (simp add: readFloatLE_def float_bytes_le_def nth_append word_of_bytes_le_float_bytes)

lemma bufferToFloatArray_loop_packed:
  "bufferToFloatArray_loop dec (pre @ concat (map float_bytes_le ws)) (length pre) acc
     = Inr (acc @ map dec ws)"
proof (induction ws arbitrary: pre acc)
  case Nil
  then show ?case by simp
next
  case (Cons w ws)
  have "bufferToFloatArray_loop dec ((pre @ float_bytes_le w) @ concat (map float_bytes_le ws))
          (length (pre @ float_bytes_le w)) (acc @ [dec w]) = Inr ((acc @ [dec w]) @ map dec ws)"
    by (rule Cons.IH)
  then show ?case
    using readFloatLE_at [of dec pre w "concat (map float_bytes_le ws)"]
    by (subst bufferToFloatArray_loop.simps) simp
qed

lemma writeFloatLE_at:
  "length junk = 4 \<Longrightarrow>
   writeFloatLE enc (pre @ junk @ post) v (length pre) = Inr (pre @ float_bytes_le (enc v) @ post)"
  by (simp add: writeFloatLE_def)

lemma floatArrayToBuffer_loop_fills:
  "length junk = 4 * length rest \<Longrightarrow>
   floatArrayToBuffer_loop enc (pfx @ rest) (length pfx)
       (concat (map (\<lambda>x. float_bytes_le (enc x)) pfx) @ junk)
     = Inr (concat (map (\<lambda>x. float_bytes_le (enc x)) (pfx @ rest)))"
proof (induction rest arbitrary: pfx junk)
  case Nil
  then show ?case by simp
next
  case (Cons x rest)
  let ?pre = "concat (map (\<lambda>x. float_bytes_le (enc x)) pfx)"
  have lp: "length ?pre = length pfx * 4"
    by (induction pfx) simp_all
  have j: "junk = take 4 junk @ drop 4 junk" by simp
  have l4: "length (take 4 junk) = 4" using Cons.prems by simp
  have w: "writeFloatLE enc (?pre @ junk) x (length pfx * 4) =
           Inr (?pre @ float_bytes_le (enc x) @ drop 4 junk)"
    using writeFloatLE_at [OF l4, of enc ?pre "drop 4 junk" x] lp by simp
  have "floatArrayToBuffer_loop enc ((pfx @ [x]) @ rest) (length (pfx @ [x]))
          (concat (map (\<lambda>x. float_bytes_le (enc x)) (pfx @ [x])) @ drop 4 junk)
        = Inr (concat (map (\<lambda>x. float_bytes_le (enc x)) ((pfx @ [x]) @ rest)))"
    by (rule Cons.IH) (use Cons.prems in simp)
  then show ?case
    using w by (subst floatArrayToBuffer_loop.simps) simp
qed

lemma floatArrayToBuffer_eq:
  "floatArrayToBuffer enc mem arr = Inr (concat (map (\<lambda>x. float_bytes_le (enc x)) arr))"
  using floatArrayToBuffer_loop_fills [of "allocUnsafe mem (length arr * 4)" arr enc "[]"]
  by (simp add: floatArrayToBuffer_def allocUnsafe_def)

lemma bufferToFloatArray_packed:
  "bufferToFloatArray dec (concat (map (\<lambda>x. float_bytes_le (enc x)) arr)) = Inr (map (\<lambda>x. dec (enc x)) arr)"
  using bufferToFloatArray_loop_packed [of dec "[]" "map enc arr" "[]"]
  by (simp add: bufferToFloatArray_def comp_def)

text \<open>
  C9: packing a vector and unpacking the buffer gives a vector of the same length whose
  elements are those of the input rounded to single precision (written as binary32 and
  read back); the empty vector packs to the empty buffer, and the empty buffer unpacks to
  the empty vector.
\<close>

theorem pack_unpack_roundtrip:
  "(\<exists>buf floats. floatArrayToBuffer enc mem v = Inr buf \<and>
       bufferToFloatArray dec buf = Inr floats \<and>
       length floats = length v \<and>
       floats = map (fround enc dec) v) \<and>
   floatArrayToBuffer enc mem [] = Inr [] \<and>
   bufferToFloatArray dec [] = Inr []"
  using floatArrayToBuffer_eq [of enc mem "[]"] bufferToFloatArray_packed [of dec enc "[]"]
  by (simp add: floatArrayToBuffer_eq bufferToFloatArray_packed fround_def [abs_def])

section \<open>Properties of the record store\<close>

subsection \<open>What the operations leave unchanged\<close>

lemma insert_error_tag_tables [simp]:
  "errors (insert_error_tag e t db) = errors db"
  "solutions (insert_error_tag e t db) = solutions db"
  "embeddings (insert_error_tag e t db) = embeddings db"
  "tags (insert_error_tag e t db) = tags db"
  "errors_seq (insert_error_tag e t db) = errors_seq db"
  by (simp_all add: insert_error_tag_def)

lemma addTagsToError_tables [simp]:
  "errors (addTagsToError e ts db) = errors db"
  "solutions (addTagsToError e ts db) = solutions db"
  "embeddings (addTagsToError e ts db) = embeddings db"
  "tags (addTagsToError e ts db) = tags db"
  "errors_seq (addTagsToError e ts db) = errors_seq db"
  unfolding addTagsToError_def by (induction ts arbitrary: db) simp_all

lemma getTagByName_None:
  "getTagByName db name = None \<Longrightarrow> \<not> list_ex (\<lambda>row. t_name row = trim (toLowerCase name)) (tags db)"
  by (auto simp: getTagByName_def find_None_iff list_ex_iff)

lemma createTag_fresh:
  assumes "getTagByName db name = None"
  shows "\<exists>tag db'. createTag name category db = (Inr tag, db') \<and> errors db' = errors db \<and>
     solutions db' = solutions db \<and> embeddings db' = embeddings db \<and> errors_seq db' = errors_seq db
     \<and> error_tags db' = error_tags db"
  using getTagByName_None [OF assms]
  by (simp add: createTag_def insert_tag_def Let_def)

lemma getOrCreateTags_loop_ok:
  "\<exists>tagRecords db'. getOrCreateTags_loop names category results db = (Inr tagRecords, db') \<and>
     errors db' = errors db \<and> solutions db' = solutions db \<and> embeddings db' = embeddings db \<and>
     errors_seq db' = errors_seq db"
proof (induction names arbitrary: results db)
  case Nil
  then show ?case by simp
next
  case (Cons name names)
  let ?n = "trim (toLowerCase name)"
  show ?case
  proof (cases "?n = []")
    case True
    then show ?thesis using Cons.IH [of results db] by simp
  next
    case False
    show ?thesis
    proof (cases "getTagByName db ?n")
      case (Some tag)
      then show ?thesis using False Cons.IH [of "results @ [tag]" db] by simp
    next
      case None
      from createTag_fresh [OF None, of category]
      obtain tag db1 where c: "createTag ?n category db = (Inr tag, db1)"
        and e: "errors db1 = errors db" "solutions db1 = solutions db"
          "embeddings db1 = embeddings db" "errors_seq db1 = errors_seq db"
        by blast
      from Cons.IH [of "results @ [tag]" db1] show ?thesis
        using False None c e by simp
    qed
  qed
qed

lemma getOrCreateTags_ok:
  "\<exists>tagRecords db'. getOrCreateTags names category db = (Inr tagRecords, db') \<and>
     errors db' = errors db \<and> solutions db' = solutions db \<and> embeddings db' = embeddings db \<and>
     errors_seq db' = errors_seq db"
  unfolding getOrCreateTags_def by (rule getOrCreateTags_loop_ok)

lemma fold_max_ge: "x \<in> set xs \<Longrightarrow> x \<le> fold max xs (s::nat)"
  and fold_max_ge_seq: "s \<le> fold max xs s"
proof -
  have "s \<le> fold max xs s \<and> (\<forall>x\<in>set xs. x \<le> fold max xs s)"
  proof (induction xs arbitrary: s)
    case Nil
    then show ?case by simp
  next
    case (Cons a xs)
    have "max a s \<le> fold max xs (max a s)" using Cons.IH by blast
    then show ?case using Cons.IH [of "max a s"] by auto
  qed
  then show "x \<in> set xs \<Longrightarrow> x \<le> fold max xs s" and "s \<le> fold max xs s" by auto
qed

lemma next_rowid_fresh: "x \<in> set ids \<Longrightarrow> x < next_rowid seq ids"
  using fold_max_ge [of x ids seq] by (simp add: next_rowid_def)

lemma recordError_existing:
  assumes "find (\<lambda>row. e_hash row = fingerprint_of sha256 input) (errors db) = Some existing"
  shows "recordError sha256 now input db = (Inr (e_id existing), update_error_seen now (e_id existing) db)"
  using assms by (simp add: recordError_def fingerprint_of_def Let_def)

lemma recordError_new:
  assumes "find (\<lambda>row. e_hash row = fingerprint_of sha256 input) (errors db) = None"
  shows "\<exists>db' row. recordError sha256 now input db = (Inr (e_id row), db') \<and>
           errors db' = errors db @ [row] \<and> e_hash row = fingerprint_of sha256 input \<and>
           e_occurrence_count row = 1 \<and> e_id row = next_rowid (errors_seq db) (map e_id (errors db)) \<and>
           solutions db' = solutions db \<and> embeddings db' = embeddings db"
proof -
  let ?type = "if ei_errorType input \<noteq> [] then ei_errorType input
               else extractErrorType (ei_message input) ''unknown''"
  let ?hash = "generateErrorHash sha256 (ei_message input) ?type"
  have nohash: "\<not> list_ex (\<lambda>row. e_hash row = ?hash) (errors db)"
    using assms by (auto simp: fingerprint_of_def find_None_iff list_ex_iff)
  let ?sev = "case ei_severity input of Some s \<Rightarrow> s | None \<Rightarrow> suggestSeverity (ei_message input)"
  let ?ins = "insert_error now ?hash (ei_message input) (normalizeErrorMessage (ei_message input))
     ?type ?sev (or_null (ei_stackTrace input)) (or_null (ei_filePath input))
     (or_null (ei_projectName input)) db"
  obtain rid db1 where ins: "?ins = (Inr rid, db1)"
    and rid: "rid = next_rowid (errors_seq db) (map e_id (errors db))"
    and db1: "\<exists>row. errors db1 = errors db @ [row] \<and> e_hash row = ?hash \<and>
                 e_occurrence_count row = 1 \<and> e_id row = rid"
      "solutions db1 = solutions db" "embeddings db1 = embeddings db"
    using nohash by (simp add: insert_error_def Let_def)
  let ?all = "new_Set ((case ei_tags input of None \<Rightarrow> [] | Some ts \<Rightarrow> ts) @ extractTags (ei_message input) ?type)"
  from getOrCreateTags_ok [of ?all None db1]
  obtain tagRecords db2 where g: "getOrCreateTags ?all None db1 = (Inr tagRecords, db2)"
    and db2: "errors db2 = errors db1" "solutions db2 = solutions db1" "embeddings db2 = embeddings db1"
    by blast
  have r: "recordError sha256 now input db =
      (if length ?all > 0 then (Inr rid, addTagsToError rid (map t_id tagRecords) db2) else (Inr rid, db1))"
    using assms ins g unfolding recordError_def fingerprint_of_def Let_def by simp
  show ?thesis
    using r db1 db2 rid unfolding fingerprint_of_def by (cases "length ?all > 0") auto
qed

subsection \<open>The store stays well-formed\<close>

lemma update_error_seen_keys [simp]:
  "map e_hash (errors (update_error_seen now i db)) = map e_hash (errors db)"
  "map e_id (errors (update_error_seen now i db)) = map e_id (errors db)"
  "solutions (update_error_seen now i db) = solutions db"
  "embeddings (update_error_seen now i db) = embeddings db"
  by (simp_all add: update_error_seen_def comp_def)

lemma recordError_store_ok:
  assumes "store_ok db"
  shows "store_ok (snd (recordError sha256 now input db))"
proof (cases "find (\<lambda>row. e_hash row = fingerprint_of sha256 input) (errors db)")
  case (Some existing)
  then show ?thesis
    using assms by (simp add: recordError_existing store_ok_def)
next
  case None
  from recordError_new [OF None, of now]
  obtain db' row where r: "recordError sha256 now input db = (Inr (e_id row), db')"
    and e: "errors db' = errors db @ [row]" "e_hash row = fingerprint_of sha256 input"
      "e_id row = next_rowid (errors_seq db) (map e_id (errors db))"
      "solutions db' = solutions db" "embeddings db' = embeddings db"
    by blast
  have h: "e_hash row \<notin> set (map e_hash (errors db))"
    using None e(2) by (auto simp: find_None_iff)
  have i: "e_id row \<notin> set (map e_id (errors db))"
    using next_rowid_fresh [of "e_id row" "map e_id (errors db)" "errors_seq db"] e(3) by auto
  show ?thesis
    using assms r e h i by (simp add: store_ok_def)
qed

lemma rate_consistent_write [simp]: "rate_consistent (write_solution row)"
  by (simp add: rate_consistent_def write_solution_def)

lemma recordSolution_store_ok:
  assumes "store_ok db"
  shows "store_ok (snd (recordSolution now input db))"
proof (cases "find (\<lambda>row. e_id row = si_errorId input) (errors db)")
  case None
  then show ?thesis using assms by (simp add: recordSolution_def)
next
  case (Some err)
  have "next_rowid (solutions_seq db) (map s_id (solutions db)) \<notin> set (map s_id (solutions db))"
    using next_rowid_fresh [of _ "map s_id (solutions db)" "solutions_seq db"] by blast
  then show ?thesis
    using assms Some
    by (simp add: recordSolution_def store_ok_def Let_def write_solution_def rate_consistent_def)
qed

lemma s_id_increment_outcome [simp]: "s_id (increment_outcome success row) = s_id row"
  by (simp add: increment_outcome_def write_solution_def)

lemma rate_consistent_increment [simp]: "rate_consistent (increment_outcome success row)"
  by (simp add: increment_outcome_def)

lemma recordSolutionOutcome_store_ok:
  assumes "store_ok db"
  shows "store_ok (snd (recordSolutionOutcome solutionId success db))"
proof -
  let ?f = "\<lambda>row. if s_id row = solutionId then increment_outcome success row else row"
  have ids: "map s_id (map ?f xs) = map s_id xs" for xs
    by (induction xs) auto
  have rates: "list_all rate_consistent (map ?f (solutions db))"
    using assms by (auto simp: store_ok_def list_all_iff)
  have sol: "solutions (snd (recordSolutionOutcome solutionId success db)) = map ?f (solutions db)"
    and oth: "errors (snd (recordSolutionOutcome solutionId success db)) = errors db"
      "embeddings (snd (recordSolutionOutcome solutionId success db)) = embeddings db"
    by (simp_all add: recordSolutionOutcome_def Let_def)
  show ?thesis
    using assms rates unfolding store_ok_def sol oth ids by simp
qed

lemma length_packed:
  "length (concat (map (\<lambda>x. float_bytes_le (enc x)) v)) = 4 * length v"
  by (induction v) simp_all

lemma upsert_embedding_store_ok:
  assumes "distinct (map m_error_id (embeddings db))" "list_all embedding_packed (embeddings db)"
    and "length buf = 4 * dims"
  shows "distinct (map m_error_id (embeddings (upsert_embedding errorId buf model dims db))) \<and>
         list_all embedding_packed (embeddings (upsert_embedding errorId buf model dims db))"
proof (cases "list_ex (\<lambda>row. m_error_id row = errorId) (embeddings db)")
  case True
  let ?f = "\<lambda>row. if m_error_id row = errorId
                   then row\<lparr>m_embedding := buf, m_model := model, m_dimensions := dims\<rparr> else row"
  have ids: "map m_error_id (map ?f xs) = map m_error_id xs" for xs
    by (induction xs) auto
  have pk: "list_all embedding_packed (map ?f (embeddings db))"
    using assms(2,3) by (auto simp: list_all_iff embedding_packed_def)
  have "embeddings (upsert_embedding errorId buf model dims db) = map ?f (embeddings db)"
    using True by (simp add: upsert_embedding_def)
  then show ?thesis using assms(1) pk by (simp only: ids simp_thms)
next
  case False
  then have "errorId \<notin> set (map m_error_id (embeddings db))"
    by (auto simp: list_ex_iff)
  then show ?thesis
    using False assms by (simp add: upsert_embedding_def Let_def embedding_packed_def)
qed

lemma upsert_embedding_tables [simp]:
  "errors (upsert_embedding errorId buf model dims db) = errors db"
  "solutions (upsert_embedding errorId buf model dims db) = solutions db"
  by (simp_all add: upsert_embedding_def Let_def)

lemma storeEmbedding_store_ok:
  assumes "store_ok db"
  shows "store_ok (snd (storeEmbedding enc mem errorId embedding model db))"
proof (cases "find (\<lambda>row. e_id row = errorId) (errors db)")
  case None
  then show ?thesis using assms by (simp add: storeEmbedding_def)
next
  case (Some err)
  have d: "distinct (map m_error_id (embeddings db))" and p: "list_all embedding_packed (embeddings db)"
    using assms by (simp_all add: store_ok_def)
  note u = upsert_embedding_store_ok [OF d p length_packed [of enc embedding], of errorId model]
  show ?thesis
    using assms Some u
    by (simp add: storeEmbedding_def floatArrayToBuffer_eq store_ok_def Let_def)
qed

lemma perform_store_ok: "store_ok db \<Longrightarrow> store_ok (perform sha256 enc mem operation db)"
  by (cases operation)
     (simp_all add: recordError_store_ok recordSolution_store_ok recordSolutionOutcome_store_ok
        storeEmbedding_store_ok)

lemma run_store_ok: "store_ok db \<Longrightarrow> store_ok (run sha256 enc mem ops db)"
  unfolding run_def by (induction ops arbitrary: db) (simp_all add: perform_store_ok)

lemma store_ok_empty: "store_ok empty_database"
  by (simp add: store_ok_def empty_database_def)

lemma reachable_store_ok: "store_ok (run sha256 enc mem ops empty_database)"
  by (rule run_store_ok [OF store_ok_empty])

subsection \<open>Success rates\<close>

lemma filter_map_outcome:
  "filter (\<lambda>row. s_id row = sid)
     (map (\<lambda>row. if s_id row = sid then increment_outcome success row else row) xs)
   = map (increment_outcome success) (filter (\<lambda>row. s_id row = sid) xs)"
  by (induction xs) auto

lemma solutions_recordSolutionOutcome:
  "filter (\<lambda>row. s_id row = sid) (solutions (snd (recordSolutionOutcome sid success db)))
   = map (increment_outcome success) (filter (\<lambda>row. s_id row = sid) (solutions db))"
  by (simp add: recordSolutionOutcome_def Let_def filter_map_outcome)

lemma recordSolution_row:
  assumes "recordSolution now input db = (Inr sid, db1)"
  shows "\<exists>row. filter (\<lambda>row. s_id row = sid) (solutions db1) = [row] \<and>
           s_success_count row = 0 \<and> s_failure_count row = 0"
proof (cases "find (\<lambda>row. e_id row = si_errorId input) (errors db)")
  case None
  then show ?thesis using assms by (simp add: recordSolution_def)
next
  case (Some err)
  let ?sid = "next_rowid (solutions_seq db) (map s_id (solutions db))"
  have "\<forall>row\<in>set (solutions db). s_id row \<noteq> ?sid"
    using next_rowid_fresh [of _ "map s_id (solutions db)" "solutions_seq db"] by fastforce
  then have "filter (\<lambda>row. s_id row = ?sid) (solutions db) = []"
    by (simp add: filter_empty_conv)
  then show ?thesis
    using assms Some by (auto simp: recordSolution_def Let_def write_solution_def)
qed

lemma two_successes_one_failure:
  assumes "s_success_count row = 0" "s_failure_count row = 0"
  shows "s_success_count (increment_outcome False (increment_outcome True (increment_outcome True row))) = 2"
    and "s_failure_count (increment_outcome False (increment_outcome True (increment_outcome True row))) = 1"
    and "s_success_rate (increment_outcome False (increment_outcome True (increment_outcome True row))) = 2 / 3"
  using assms by (simp_all add: increment_outcome_def write_solution_def generated_success_rate_def)

text \<open>
  C8: in every store that a sequence of operations leaves behind, the success rate of each
  solution is its success count divided by the number of its recorded outcomes, and 0 when
  it has none; a solution that is recorded and then gets two successes and one failure has
  the rate 2/3.
\<close>

theorem success_rate_from_counts:
  "store_ok empty_database \<and>
   (store_ok db0 \<longrightarrow>
     (\<forall>row\<in>set (solutions (run sha256 enc mem ops db0)).
        s_success_rate row =
          (if s_success_count row + s_failure_count row = 0 then 0
           else real (s_success_count row) / real (s_success_count row + s_failure_count row))) \<and>
     (\<forall>now input solutionId db1.
        recordSolution now input (run sha256 enc mem ops db0) = (Inr solutionId, db1) \<longrightarrow>
        (\<exists>row. filter (\<lambda>row. s_id row = solutionId)
                 (solutions (snd (recordSolutionOutcome solutionId False
                    (snd (recordSolutionOutcome solutionId True
                       (snd (recordSolutionOutcome solutionId True db1))))))) = [row] \<and>
               s_success_count row = 2 \<and> s_failure_count row = 1 \<and> s_success_rate row = 2 / 3)))"
proof (intro conjI impI allI ballI)
  show "store_ok empty_database" by (rule store_ok_empty)
next
  fix row
  assume ok: "store_ok db0" and row: "row \<in> set (solutions (run sha256 enc mem ops db0))"
  have "store_ok (run sha256 enc mem ops db0)" using ok by (rule run_store_ok)
  then have "rate_consistent row"
    using row by (simp add: store_ok_def list_all_iff)
  then show "s_success_rate row =
      (if s_success_count row + s_failure_count row = 0 then 0
       else real (s_success_count row) / real (s_success_count row + s_failure_count row))"
    by (simp add: rate_consistent_def generated_success_rate_def)
next
  fix now input solutionId db1
  assume "recordSolution now input (run sha256 enc mem ops db0) = (Inr solutionId, db1)"
  from recordSolution_row [OF this]
  obtain row0 where f: "filter (\<lambda>row. s_id row = solutionId) (solutions db1) = [row0]"
    and z: "s_success_count row0 = 0" "s_failure_count row0 = 0"
    by blast
  let ?row = "increment_outcome False (increment_outcome True (increment_outcome True row0))"
  have "filter (\<lambda>row. s_id row = solutionId)
          (solutions (snd (recordSolutionOutcome solutionId False
             (snd (recordSolutionOutcome solutionId True
                (snd (recordSolutionOutcome solutionId True db1))))))) = [?row]"
    by (simp add: solutions_recordSolutionOutcome f)
  then show "\<exists>row. filter (\<lambda>row. s_id row = solutionId)
                 (solutions (snd (recordSolutionOutcome solutionId False
                    (snd (recordSolutionOutcome solutionId True
                       (snd (recordSolutionOutcome solutionId True db1))))))) = [row] \<and>
               s_success_count row = 2 \<and> s_failure_count row = 1 \<and> s_success_rate row = 2 / 3"
    using two_successes_one_failure [OF z] by blast
qed

theorem success_rate_from_counts_witness:
  "store_ok db_one_error \<and>
   (\<exists>row \<in> set (solutions (run id (\<lambda>x. 0) (\<lambda>i. 0)
        [RecordSolution 1 a_solution, RecordSolutionOutcome 1 True, RecordSolutionOutcome 1 False]
        db_one_error)).
      s_success_count row = 1 \<and> s_failure_count row = 1 \<and> s_success_rate row = 1 / 2) \<and>
   (\<exists>db1. recordSolution 1 a_solution (run id (\<lambda>x. 0) (\<lambda>i. 0) [] db_one_error) = (Inr 1, db1) \<and>
      map s_success_rate (solutions (snd (recordSolutionOutcome 1 False
                    (snd (recordSolutionOutcome 1 True
                       (snd (recordSolutionOutcome 1 True db1))))))) = [2 / 3])"
proof -
  have ok: "store_ok db_one_error"
    by (simp add: store_ok_def db_one_error_def empty_database_def)
  let ?db = "run id (\<lambda>x. 0) (\<lambda>i. 0)
        [RecordSolution 1 a_solution, RecordSolutionOutcome 1 True, RecordSolutionOutcome 1 False]
        db_one_error"
  have sols: "map (\<lambda>row. (s_success_count row, s_failure_count row)) (solutions ?db) = [(1, 1)]"
    by (simp add: run_def recordSolution_def recordSolutionOutcome_def db_one_error_def
        empty_database_def a_solution_def next_rowid_def Let_def increment_outcome_def
        write_solution_def)
  then obtain row where row: "solutions ?db = [row]" "s_success_count row = 1" "s_failure_count row = 1"
    by auto
  have "s_success_rate row = 1 / 2"
    using success_rate_from_counts [of db_one_error id "\<lambda>x. 0" "\<lambda>i. 0"
        "[RecordSolution 1 a_solution, RecordSolutionOutcome 1 True, RecordSolutionOutcome 1 False]"]
      ok row by simp
  moreover
  have rs: "recordSolution 1 a_solution (run id (\<lambda>x. 0) (\<lambda>i. 0) [] db_one_error) =
      (Inr 1, snd (recordSolution 1 a_solution db_one_error))"
    by (simp add: run_def recordSolution_def db_one_error_def empty_database_def a_solution_def
        next_rowid_def Let_def)
  have "map s_success_rate (solutions (snd (recordSolutionOutcome 1 False
                    (snd (recordSolutionOutcome 1 True
                       (snd (recordSolutionOutcome 1 True (snd (recordSolution 1 a_solution db_one_error))))))))) = [2 / 3]"
    by (simp add: run_def recordSolution_def recordSolutionOutcome_def db_one_error_def
        empty_database_def a_solution_def next_rowid_def Let_def increment_outcome_def
        write_solution_def generated_success_rate_def)
  ultimately show ?thesis
    using ok row rs by auto
qed

subsection \<open>Insert or increment\<close>

lemma find_map_preserved:
  assumes "\<And>r. P (f r) = P r"
  shows "find P (map f xs) = map_option f (find P xs)"
  by (induction xs) (simp_all add: assms)

lemma filter_map_preserved:
  assumes "\<And>r. P (f r) = P r"
  shows "filter P (map f xs) = map f (filter P xs)"
  by (induction xs) (simp_all add: assms)

lemma find_append_None:
  "find P xs = None \<Longrightarrow> find P (xs @ ys) = find P ys"
  by (induction xs) (simp_all split: if_splits)

lemma filter_unique_hash:
  assumes "distinct (map e_hash xs)" and "find (\<lambda>row. e_hash row = h) xs = Some r"
  shows "filter (\<lambda>row. e_hash row = h) xs = [r]"
  using assms
proof (induction xs)
  case Nil
  then show ?case by simp
next
  case (Cons a xs)
  show ?case
  proof (cases "e_hash a = h")
    case True
    then have "\<forall>row\<in>set xs. e_hash row \<noteq> h" using Cons.prems(1) by (auto simp: image_iff)
    then have "filter (\<lambda>row. e_hash row = h) xs = []" by (simp add: filter_empty_conv)
    then show ?thesis using True Cons.prems(2) by simp
  next
    case False
    then show ?thesis using Cons by simp
  qed
qed

lemma errors_update_error_seen:
  "errors (update_error_seen now errorId db) = map (seen_again now errorId) (errors db)"
  by (simp add: update_error_seen_def seen_again_def [abs_def])

lemma seen_again_keys [simp]:
  "e_hash (seen_again now errorId row) = e_hash row"
  "e_id (seen_again now errorId row) = e_id row"
  by (simp_all add: seen_again_def)

lemma seen_again_count:
  "e_id row = errorId \<Longrightarrow> e_occurrence_count (seen_again now errorId row) = e_occurrence_count row + 1"
  by (simp add: seen_again_def)

text \<open>
  The first recording of an input in a well-formed store: it returns the key of the one row
  with the fingerprint of the input, whose count is one more than before.
\<close>

lemma recordError_once:
  assumes "distinct (map e_hash (errors db))"
    and "h = fingerprint_of sha256 x"
    and "prior = (case find (\<lambda>row. e_hash row = h) (errors db) of
                        None \<Rightarrow> 0 | Some row \<Rightarrow> e_occurrence_count row)"
  shows "\<exists>row db1. recordError sha256 now x db = (Inr (e_id row), db1) \<and>
           find (\<lambda>row. e_hash row = h) (errors db1) = Some row \<and>
           e_occurrence_count row = prior + 1 \<and>
           (\<forall>old. find (\<lambda>row. e_hash row = h) (errors db) = Some old \<longrightarrow> e_id old = e_id row)"
proof (cases "find (\<lambda>row. e_hash row = h) (errors db)")
  case None
  from recordError_new [OF None [unfolded assms(2)], of now]
  obtain db1 row where r: "recordError sha256 now x db = (Inr (e_id row), db1)"
    and e: "errors db1 = errors db @ [row]" "e_hash row = h" "e_occurrence_count row = 1"
    unfolding assms(2) by blast
  have "find (\<lambda>row. e_hash row = h) (errors db1) = Some row"
    using None e by (simp add: find_append_None)
  then show ?thesis using r e None by (auto simp: assms(3))
next
  case (Some existing)
  let ?row = "seen_again now (e_id existing) existing"
  have r: "recordError sha256 now x db = (Inr (e_id ?row), update_error_seen now (e_id existing) db)"
    using recordError_existing [OF Some [unfolded assms(2)], of now] by simp
  have "find (\<lambda>row. e_hash row = h) (errors (update_error_seen now (e_id existing) db)) = Some ?row"
    unfolding errors_update_error_seen
    by (subst find_map_preserved) (simp_all add: Some)
  moreover have "e_occurrence_count ?row = prior + 1"
    using Some by (simp add: assms(3) seen_again_count)
  ultimately show ?thesis using r Some by auto
qed

lemma same_fingerprint:
  "ei_message x = ei_message y \<Longrightarrow> ei_errorType x = ei_errorType y \<Longrightarrow>
   fingerprint_of sha256 x = fingerprint_of sha256 y"
  by (simp add: fingerprint_of_def)

text \<open>
  C1: in a store left behind by a sequence of operations no two error rows share a
  fingerprint; recording an input, and then an input with the same message and category,
  returns the same key both times, and afterwards the one row with their fingerprint has
  that key and an occurrence count that is 2 more than the count the fingerprint had before
  (which is 0, so that the count is 2, when the fingerprint was not stored).
\<close>

theorem recordError_insert_or_increment:
  "store_ok db0 \<and> ei_message x = ei_message y \<and> ei_errorType x = ei_errorType y \<longrightarrow>
   (let db = run sha256 enc mem ops db0;
        h = fingerprint_of sha256 x;
        prior = (case find (\<lambda>row. e_hash row = h) (errors db) of
                   None \<Rightarrow> 0 | Some row \<Rightarrow> e_occurrence_count row)
    in distinct (map e_hash (errors db)) \<and>
       (\<exists>errorId db1 db2.
          recordError sha256 t1 x db = (Inr errorId, db1) \<and>
          recordError sha256 t2 y db1 = (Inr errorId, db2) \<and>
          map (\<lambda>row. (e_id row, e_occurrence_count row))
              (filter (\<lambda>row. e_hash row = h) (errors db2)) = [(errorId, prior + 2)] \<and>
          distinct (map e_hash (errors db2))))"
proof (intro impI, elim conjE)
  assume ok0: "store_ok db0" and m: "ei_message x = ei_message y" "ei_errorType x = ei_errorType y"
  define db where "db = run sha256 enc mem ops db0"
  define h where "h = fingerprint_of sha256 x"
  define prior where "prior = (case find (\<lambda>row. e_hash row = h) (errors db) of
                   None \<Rightarrow> 0 | Some row \<Rightarrow> e_occurrence_count row)"
  have hy: "fingerprint_of sha256 y = h"
    using same_fingerprint [OF m] by (simp add: h_def)
  have ok: "store_ok db" unfolding db_def using ok0 by (rule run_store_ok)
  then have d: "distinct (map e_hash (errors db))" by (simp add: store_ok_def)
  from recordError_once [OF d h_def prior_def, of t1]
  obtain row1 db1 where r1: "recordError sha256 t1 x db = (Inr (e_id row1), db1)"
    and f1: "find (\<lambda>row. e_hash row = h) (errors db1) = Some row1"
    and c1: "e_occurrence_count row1 = prior + 1"
    by blast
  have ok1: "store_ok db1"
    using recordError_store_ok [OF ok, of sha256 t1 x] r1 by simp
  then have d1: "distinct (map e_hash (errors db1))" by (simp add: store_ok_def)
  from recordError_once [OF d1 hy [symmetric] refl, of t2]
  obtain row2 db2 where r2: "recordError sha256 t2 y db1 = (Inr (e_id row2), db2)"
    and f2: "find (\<lambda>row. e_hash row = h) (errors db2) = Some row2"
    and c2: "e_occurrence_count row2 = e_occurrence_count row1 + 1"
    and i2: "e_id row1 = e_id row2"
    using f1 by auto
  have ok2: "store_ok db2"
    using recordError_store_ok [OF ok1, of sha256 t2 y] r2 by simp
  then have d2: "distinct (map e_hash (errors db2))" by (simp add: store_ok_def)
  have "filter (\<lambda>row. e_hash row = h) (errors db2) = [row2]"
    using filter_unique_hash [OF d2 f2] .
  then have "map (\<lambda>row. (e_id row, e_occurrence_count row))
              (filter (\<lambda>row. e_hash row = h) (errors db2)) = [(e_id row2, prior + 2)]"
    using c1 c2 by simp
  then have "\<exists>errorId db1 db2.
          recordError sha256 t1 x db = (Inr errorId, db1) \<and>
          recordError sha256 t2 y db1 = (Inr errorId, db2) \<and>
          map (\<lambda>row. (e_id row, e_occurrence_count row))
              (filter (\<lambda>row. e_hash row = h) (errors db2)) = [(errorId, prior + 2)] \<and>
          distinct (map e_hash (errors db2))"
    using r1 r2 i2 d2 by auto
  then show "let db = run sha256 enc mem ops db0;
        h = fingerprint_of sha256 x;
        prior = (case find (\<lambda>row. e_hash row = h) (errors db) of
                   None \<Rightarrow> 0 | Some row \<Rightarrow> e_occurrence_count row)
    in distinct (map e_hash (errors db)) \<and>
       (\<exists>errorId db1 db2.
          recordError sha256 t1 x db = (Inr errorId, db1) \<and>
          recordError sha256 t2 y db1 = (Inr errorId, db2) \<and>
          map (\<lambda>row. (e_id row, e_occurrence_count row))
              (filter (\<lambda>row. e_hash row = h) (errors db2)) = [(errorId, prior + 2)] \<and>
          distinct (map e_hash (errors db2)))"
    using d unfolding Let_def db_def [symmetric] h_def [symmetric] prior_def [symmetric] by simp
qed

theorem recordError_insert_or_increment_witness:
  "store_ok empty_database \<and>
   (\<exists>errorId db1 db2.
      recordError id 0 an_error (run id (\<lambda>x. 0) (\<lambda>i. 0) [] empty_database) = (Inr errorId, db1) \<and>
      recordError id 7 an_error db1 = (Inr errorId, db2) \<and>
      map (\<lambda>row. (e_id row, e_occurrence_count row))
          (filter (\<lambda>row. e_hash row = fingerprint_of id an_error) (errors db2)) = [(errorId, 2)])"
proof -
  have e: "errors (run id (\<lambda>x. 0) (\<lambda>i. 0) [] empty_database) = []"
    by (simp add: run_def empty_database_def)
  from recordError_insert_or_increment
         [of empty_database an_error an_error id "\<lambda>x. 0" "\<lambda>i. 0" "[]" 0 7]
  obtain errorId db1 db2 where
    "recordError id 0 an_error (run id (\<lambda>x. 0) (\<lambda>i. 0) [] empty_database) = (Inr errorId, db1)"
    "recordError id 7 an_error db1 = (Inr errorId, db2)"
    "map (\<lambda>row. (e_id row, e_occurrence_count row))
          (filter (\<lambda>row. e_hash row = fingerprint_of id an_error) (errors db2)) = [(errorId, 0 + 2)]"
    using store_ok_empty unfolding Let_def e by auto
  then show ?thesis using store_ok_empty by auto
qed

subsection \<open>Exact matches\<close>








subsection \<open>Semantic search\<close>

lemma bufferToFloatArray_loop_total:
  "length buf = i + 4 * k \<Longrightarrow>
   \<exists>fs. bufferToFloatArray_loop dec buf i acc = Inr (acc @ fs) \<and> length fs = k"
proof (induction k arbitrary: i acc)
  case 0
  then show ?case by (subst bufferToFloatArray_loop.simps) simp
next
  case (Suc k)
  obtain x where x: "readFloatLE dec buf i = Inr x"
    using Suc.prems by (simp add: readFloatLE_def)
  have "length buf = (i + 4) + 4 * k" using Suc.prems by simp
  from Suc.IH [OF this, of "acc @ [x]"]
  obtain fs where "bufferToFloatArray_loop dec buf (i + 4) (acc @ [x]) = Inr ((acc @ [x]) @ fs)"
    and "length fs = k" by blast
  then have "bufferToFloatArray_loop dec buf i acc = Inr (acc @ (x # fs)) \<and> length (x # fs) = Suc k"
    using x Suc.prems by (subst bufferToFloatArray_loop.simps) simp
  then show ?case by blast
qed

lemma bufferToFloatArray_packed_row:
  assumes "embedding_packed row"
  shows "\<exists>fs. bufferToFloatArray dec (m_embedding row) = Inr fs \<and> length fs = m_dimensions row"
  using bufferToFloatArray_loop_total [of "m_embedding row" 0 "m_dimensions row" dec "[]"] assms
  by (simp add: bufferToFloatArray_def embedding_packed_def)

lemma embedding_scan_ok:
  assumes "list_all embedding_packed rows"
  shows "\<exists>found. embedding_scan dec target minSim rows results = Inr (results @ found) \<and>
           set (map fst found) \<subseteq> m_error_id ` {row \<in> set rows. m_dimensions row = length target}"
  using assms
proof (induction rows arbitrary: results)
  case Nil
  then show ?case by simp
next
  case (Cons row rows)
  then have p: "embedding_packed row" and ps: "list_all embedding_packed rows" by simp_all
  from bufferToFloatArray_packed_row [OF p, of dec]
  obtain fs where fs: "bufferToFloatArray dec (m_embedding row) = Inr fs" "length fs = m_dimensions row"
    by blast
  have mono: "m_error_id ` {r \<in> set rows. m_dimensions r = length target}
      \<subseteq> m_error_id ` {r \<in> set (row # rows). m_dimensions r = length target}"
    by auto
  show ?case
  proof (cases "length fs = length target")
    case False
    from Cons.IH [OF ps, of results]
    obtain found where "embedding_scan dec target minSim rows results = Inr (results @ found)"
      and "set (map fst found) \<subseteq> m_error_id ` {row \<in> set rows. m_dimensions row = length target}"
      by blast
    moreover have "embedding_scan dec target minSim (row # rows) results
        = embedding_scan dec target minSim rows results"
      using fs False by simp
    ultimately show ?thesis using mono by (metis (no_types, lifting) subset_trans)
  next
    case True
    then obtain sim where sim: "cosineSimilarity target fs = Inr sim"
      using cosineSimilarity_equal_length [of target fs] by simp
    show ?thesis
    proof (cases "sim \<ge> minSim")
      case True
      from Cons.IH [OF ps, of "results @ [(m_error_id row, sim)]"]
      obtain found where f: "embedding_scan dec target minSim rows (results @ [(m_error_id row, sim)])
            = Inr ((results @ [(m_error_id row, sim)]) @ found)"
        and s: "set (map fst found) \<subseteq> m_error_id ` {row \<in> set rows. m_dimensions row = length target}"
        by blast
      have "embedding_scan dec target minSim (row # rows) results
              = Inr (results @ ((m_error_id row, sim) # found))"
        using fs \<open>length fs = length target\<close> sim True f by simp
      moreover have "set (map fst ((m_error_id row, sim) # found))
          \<subseteq> m_error_id ` {r \<in> set (row # rows). m_dimensions r = length target}"
        using s fs \<open>length fs = length target\<close> by auto
      ultimately show ?thesis by blast
    next
      case False
      from Cons.IH [OF ps, of results]
      obtain found where "embedding_scan dec target minSim rows results = Inr (results @ found)"
        and "set (map fst found) \<subseteq> m_error_id ` {row \<in> set rows. m_dimensions row = length target}"
        by blast
      moreover have "embedding_scan dec target minSim (row # rows) results
          = embedding_scan dec target minSim rows results"
        using fs \<open>length fs = length target\<close> sim False by simp
      ultimately show ?thesis using mono by (metis (no_types, lifting) subset_trans)
    qed
  qed
qed

lemma getErrorById_id: "getErrorById db i = Some e \<Longrightarrow> e_id (w_error e) = i"
  by (auto simp: getErrorById_def with_tags_def find_Some_iff split: option.splits)

lemma fetch_errors_ids: "set (map error_id_of (fetch_errors db xs)) \<subseteq> set (map fst xs)"
proof (induction xs)
  case Nil
  then show ?case by simp
next
  case (Cons x xs)
  obtain i s where x: "x = (i, s)" by (cases x)
  show ?case
    using Cons.IH x getErrorById_id [of db i]
    by (auto simp: error_id_of_def split: option.splits)
qed

text \<open>
  C7: in a store whose embeddings have one row per error and four bytes per dimension,
  \<open>findSimilarByEmbedding\<close> does not throw, and no result is the error of a stored
  embedding whose number of dimensions differs from that of the query.
\<close>

theorem findSimilarByEmbedding_skips_mismatch:
  "distinct (map m_error_id (embeddings db)) \<and> list_all embedding_packed (embeddings db) \<longrightarrow>
   (\<exists>results. findSimilarByEmbedding dec db target opt_limit opt_minSimilarity = Inr results \<and>
      (\<forall>row\<in>set (embeddings db). m_dimensions row \<noteq> length target \<longrightarrow>
         m_error_id row \<notin> set (map error_id_of results)))"
proof (intro impI, elim conjE)
  assume d: "distinct (map m_error_id (embeddings db))"
    and p: "list_all embedding_packed (embeddings db)"
  let ?limit = "case opt_limit of None \<Rightarrow> 10 | Some l \<Rightarrow> l"
  let ?min = "case opt_minSimilarity of None \<Rightarrow> 0.7 | Some m \<Rightarrow> m"
  from embedding_scan_ok [OF p, of dec target ?min "[]"]
  obtain found where f: "embedding_scan dec target ?min (embeddings db) [] = Inr found"
    and s: "set (map fst found) \<subseteq> m_error_id ` {row \<in> set (embeddings db). m_dimensions row = length target}"
    by auto
  let ?results = "fetch_errors db (take ?limit (sort_desc snd found))"
  have r: "findSimilarByEmbedding dec db target opt_limit opt_minSimilarity = Inr ?results"
    using f by (simp add: findSimilarByEmbedding_def Let_def)
  have "set (map fst (take ?limit (sort_desc snd found))) \<subseteq> set (map fst found)"
    using set_take_subset [of ?limit "sort_desc snd found"] by (auto simp: sort_desc_def)
  then have sub: "set (map error_id_of ?results)
      \<subseteq> m_error_id ` {row \<in> set (embeddings db). m_dimensions row = length target}"
    using fetch_errors_ids [of db "take ?limit (sort_desc snd found)"] s by blast
  have "\<forall>row\<in>set (embeddings db). m_dimensions row \<noteq> length target \<longrightarrow>
         m_error_id row \<notin> set (map error_id_of ?results)"
  proof (intro ballI impI notI)
    fix row
    assume row: "row \<in> set (embeddings db)" and ne: "m_dimensions row \<noteq> length target"
      and "m_error_id row \<in> set (map error_id_of ?results)"
    then obtain row' where "row' \<in> set (embeddings db)" "m_dimensions row' = length target"
      "m_error_id row' = m_error_id row"
      using sub by auto
    then show False
      using d row ne by (metis distinct_map inj_on_eq_iff)
  qed
  then show "\<exists>results. findSimilarByEmbedding dec db target opt_limit opt_minSimilarity = Inr results \<and>
      (\<forall>row\<in>set (embeddings db). m_dimensions row \<noteq> length target \<longrightarrow>
         m_error_id row \<notin> set (map error_id_of results))"
    using r by blast
qed

theorem findSimilarByEmbedding_skips_mismatch_witness:
  "distinct (map m_error_id (embeddings db_two_embeddings)) \<and>
   list_all embedding_packed (embeddings db_two_embeddings) \<and>
   hd (embeddings db_two_embeddings) \<in> set (embeddings db_two_embeddings) \<and>
   m_dimensions (hd (embeddings db_two_embeddings)) \<noteq> length [1, 0 :: real] \<and>
   (\<exists>results. findSimilarByEmbedding (\<lambda>w. 1) db_two_embeddings [1, 0] None None = Inr results \<and>
      7 \<notin> set (map error_id_of results))"
  using findSimilarByEmbedding_skips_mismatch [of db_two_embeddings "\<lambda>w. 1" "[1, 0]" None None]
  by (simp add: db_two_embeddings_def db_one_error_def empty_database_def embedding_packed_def)

subsection \<open>Merging the strategies\<close>




lemma result_id_semantic [simp]: "result_id (semantic_result db x) = error_id_of x"
  by (simp add: result_id_def semantic_result_def error_id_of_def)

lemma result_id_text [simp]: "result_id (text_result db x) = error_id_of x"
  by (simp add: result_id_def text_result_def error_id_of_def)













subsection \<open>A search in the sample store\<close>









lemma error_id_sample [simp]: "e_id (w_error sample_error) = Suc 0"
  by (simp add: sample_error_def with_tags_def db_one_error_def)









subsection \<open>The relevance score\<close>











end
